theory Spec2Isabelle
  imports Complex_Main "HOL-Library.Word"
begin

section \<open>Strings of the host language\<close>

text \<open>
  A JavaScript string is a sequence of 16-bit code units. The calculator's expression
  holds code units beyond ASCII (the constant \<open>\<pi>\<close> is U+03C0, the display glyphs and
  currency symbols are others), and \<open>slice\<close>, \<open>length\<close> and the regular expressions
  count code units, so a string is a list of 16-bit words. \<open>js\<close> embeds an ASCII
  literal.
\<close>

type_synonym jschar = "16 word"
type_synonym jsstring = "jschar list"

definition js :: "string \<Rightarrow> jsstring" where
  "js s = map of_char s"

definition ch_pi :: jschar where "ch_pi = 0x03C0"
definition ch_plusminus :: jschar where "ch_plusminus = 0x00B1"
definition ch_times :: jschar where "ch_times = 0x00D7"
definition ch_divide :: jschar where "ch_divide = 0x00F7"
definition ch_minus :: jschar where "ch_minus = 0x2212"
definition ch_infinity :: jschar where "ch_infinity = 0x221E"

definition isDigit :: "jschar \<Rightarrow> bool" where
  "isDigit c = (0x30 \<le> c \<and> c \<le> 0x39)"

definition isLetter :: "jschar \<Rightarrow> bool" where
  "isLetter c = ((0x41 \<le> c \<and> c \<le> 0x5A) \<or> (0x61 \<le> c \<and> c \<le> 0x7A))"

text \<open>The class \<open>\w\<close> of a regular expression: letters, digits and the underscore.\<close>

definition isWord :: "jschar \<Rightarrow> bool" where
  "isWord c = (isLetter c \<or> isDigit c \<or> c = 0x5F)"

text \<open>The class \<open>\s\<close>: the white space and line terminators of ECMAScript.\<close>

definition isSpace :: "jschar \<Rightarrow> bool" where
  "isSpace c = (c = 0x09 \<or> c = 0x0A \<or> c = 0x0B \<or> c = 0x0C \<or> c = 0x0D \<or> c = 0x20
     \<or> c = 0xA0 \<or> c = 0x1680 \<or> (0x2000 \<le> c \<and> c \<le> 0x200A) \<or> c = 0x2028
     \<or> c = 0x2029 \<or> c = 0x202F \<or> c = 0x205F \<or> c = 0x3000 \<or> c = 0xFEFF)"

definition digitVal :: "jschar \<Rightarrow> nat" where
  "digitVal c = unat c - 48"

definition digitChar :: "nat \<Rightarrow> jschar" where
  "digitChar d = of_nat (48 + d)"

definition natOfDigits :: "jsstring \<Rightarrow> nat" where
  "natOfDigits ds = foldl (\<lambda>a c. 10 * a + digitVal c) 0 ds"

function digitsOf :: "nat \<Rightarrow> jsstring" where
  "digitsOf n = (if n < 10 then [digitChar n] else digitsOf (n div 10) @ [digitChar (n mod 10)])"
  by pat_completeness auto
termination
  by (relation "measure id") auto

declare digitsOf.simps [simp del]

text \<open>\<open>s.slice(-1)\<close>: the last code unit as a string, or the empty string.\<close>

definition sliceLast :: "jsstring \<Rightarrow> jsstring" where
  "sliceLast s = (if s = [] then [] else [last s])"

text \<open>\<open>(s.match(/c/g) || []).length\<close>: the number of occurrences of one code unit.\<close>

definition countChar :: "jschar \<Rightarrow> jsstring \<Rightarrow> nat" where
  "countChar c s = length (filter (\<lambda>d. d = c) s)"

text \<open>
  \<open>s.replace(/pat/g, rep)\<close> for a pattern that is a literal text: the matches are
  taken from left to right and do not overlap; the replacement is not scanned again.
\<close>

function replaceAll :: "jsstring \<Rightarrow> jsstring \<Rightarrow> jsstring \<Rightarrow> jsstring" where
  "replaceAll pat rep s =
     (if pat = [] \<or> s = [] then s
      else if take (length pat) s = pat
           then rep @ replaceAll pat rep (drop (length pat) s)
           else hd s # replaceAll pat rep (tl s))"
  by pat_completeness auto
termination
  by (relation "measure (\<lambda>(pat, rep, s). length s)") auto

declare replaceAll.simps [simp del]

section \<open>Numbers of the host language\<close>

text \<open>
  A JavaScript number is an IEEE 754 double: not-a-number, the two infinities, the two
  zeros, or a finite nonzero value. A finite value is held as the rational it denotes
  (\<open>Fin 0\<close> is the positive zero). \<open>toNumber\<close> is "the Number value for" a rational:
  the nearest double, ties to the even significand, with 53 bits of significand, the
  subnormal range below \<open>2^-1022\<close> and overflow to infinity from \<open>2^1024\<close>. Every
  arithmetic operation is the exact operation followed by \<open>toNumber\<close>, as IEEE 754
  prescribes for \<open>+\<close>, \<open>-\<close>, \<open>*\<close> and \<open>/\<close>.
\<close>

datatype jsnum = NaN | PosInf | NegInf | NegZero | Fin rat

definition pow2 :: "int \<Rightarrow> rat" where
  "pow2 k = (if 0 \<le> k then 2 ^ nat k else 1 / 2 ^ nat (- k))"

definition pow10 :: "int \<Rightarrow> rat" where
  "pow10 k = (if 0 \<le> k then 10 ^ nat k else 1 / 10 ^ nat (- k))"

function blog :: "nat \<Rightarrow> nat" where
  "blog n = (if n < 2 then 0 else Suc (blog (n div 2)))"
  by pat_completeness auto
termination
  by (relation "measure id") auto

declare blog.simps [simp del]

text \<open>The binary exponent of a positive rational: \<open>2^e \<le> q < 2^(e+1)\<close>.\<close>

definition ilog2 :: "rat \<Rightarrow> int" where
  "ilog2 q = (let a = fst (quotient_of q); b = snd (quotient_of q);
                  e = int (blog (nat a)) - int (blog (nat b))
              in if pow2 e \<le> q then e else e - 1)"

definition roundHalfEven :: "rat \<Rightarrow> int" where
  "roundHalfEven r = (let f = \<lfloor>r\<rfloor>; d = r - of_int f
                      in if d < 1 / 2 then f else if 1 / 2 < d then f + 1
                         else if even f then f else f + 1)"

text \<open>Rounding a positive rational; \<open>None\<close> is overflow.\<close>

definition roundPos :: "rat \<Rightarrow> rat option" where
  "roundPos q = (let e = max (ilog2 q) (- 1022); u = pow2 (e - 52);
                     v = of_int (roundHalfEven (q / u)) * u
                 in if pow2 1024 \<le> v then None else Some v)"

definition toNumber :: "rat \<Rightarrow> jsnum" where
  "toNumber q =
     (if q = 0 then Fin 0
      else if 0 < q then (case roundPos q of None \<Rightarrow> PosInf | Some v \<Rightarrow> Fin v)
      else (case roundPos (- q) of None \<Rightarrow> NegInf
            | Some v \<Rightarrow> if v = 0 then NegZero else Fin (- v)))"

definition isNaN :: "jsnum \<Rightarrow> bool" where
  "isNaN x = (x = NaN)"

definition isInf :: "jsnum \<Rightarrow> bool" where
  "isInf x = (x = PosInf \<or> x = NegInf)"

definition isFinite :: "jsnum \<Rightarrow> bool" where
  "isFinite x = (\<not> isNaN x \<and> \<not> isInf x)"

definition isZero :: "jsnum \<Rightarrow> bool" where
  "isZero x = (x = Fin 0 \<or> x = NegZero)"

text \<open>The sign bit, and the value of a finite number.\<close>

definition isNeg :: "jsnum \<Rightarrow> bool" where
  "isNeg x = (case x of NegInf \<Rightarrow> True | NegZero \<Rightarrow> True | Fin q \<Rightarrow> q < 0 | _ \<Rightarrow> False)"

definition val :: "jsnum \<Rightarrow> rat" where
  "val x = (case x of Fin q \<Rightarrow> q | _ \<Rightarrow> 0)"

definition js_neg :: "jsnum \<Rightarrow> jsnum" where
  "js_neg x = (case x of NaN \<Rightarrow> NaN | PosInf \<Rightarrow> NegInf | NegInf \<Rightarrow> PosInf
               | NegZero \<Rightarrow> Fin 0 | Fin q \<Rightarrow> if q = 0 then NegZero else Fin (- q))"

definition js_add :: "jsnum \<Rightarrow> jsnum \<Rightarrow> jsnum" where
  "js_add x y =
     (if isNaN x \<or> isNaN y then NaN
      else if isInf x then (if isInf y \<and> x \<noteq> y then NaN else x)
      else if isInf y then y
      else if x = NegZero \<and> y = NegZero then NegZero
      else if val x + val y = 0 then Fin 0
      else toNumber (val x + val y))"

definition js_sub :: "jsnum \<Rightarrow> jsnum \<Rightarrow> jsnum" where
  "js_sub x y = js_add x (js_neg y)"

definition js_mul :: "jsnum \<Rightarrow> jsnum \<Rightarrow> jsnum" where
  "js_mul x y =
     (if isNaN x \<or> isNaN y then NaN
      else if isInf x \<or> isInf y
           then (if isZero x \<or> isZero y then NaN
                 else if isNeg x \<noteq> isNeg y then NegInf else PosInf)
      else if isZero x \<or> isZero y
           then (if isNeg x \<noteq> isNeg y then NegZero else Fin 0)
      else toNumber (val x * val y))"

definition js_div :: "jsnum \<Rightarrow> jsnum \<Rightarrow> jsnum" where
  "js_div x y =
     (if isNaN x \<or> isNaN y then NaN
      else if isInf x
           then (if isInf y then NaN else if isNeg x \<noteq> isNeg y then NegInf else PosInf)
      else if isInf y then (if isNeg x \<noteq> isNeg y then NegZero else Fin 0)
      else if isZero y
           then (if isZero x then NaN else if isNeg x \<noteq> isNeg y then NegInf else PosInf)
      else if isZero x then (if isNeg x \<noteq> isNeg y then NegZero else Fin 0)
      else toNumber (val x / val y))"

text \<open>\<open>x < y\<close> and \<open>x === y\<close>: false whenever an operand is NaN; the two zeros are equal.\<close>

definition js_lt :: "jsnum \<Rightarrow> jsnum \<Rightarrow> bool" where
  "js_lt x y =
     (if isNaN x \<or> isNaN y then False
      else if x = PosInf \<or> y = NegInf then False
      else if x = NegInf \<or> y = PosInf then True
      else val x < val y)"

definition js_eq :: "jsnum \<Rightarrow> jsnum \<Rightarrow> bool" where
  "js_eq x y = (\<not> isNaN x \<and> \<not> isNaN y \<and> (x = y \<or> (isZero x \<and> isZero y)))"

definition js_ge :: "jsnum \<Rightarrow> jsnum \<Rightarrow> bool" where
  "js_ge x y = (js_lt y x \<or> js_eq x y)"

definition Number_isInteger :: "jsnum \<Rightarrow> bool" where
  "Number_isInteger x =
     (case x of Fin q \<Rightarrow> of_int \<lfloor>q\<rfloor> = q | NegZero \<Rightarrow> True | _ \<Rightarrow> False)"

definition Math_abs :: "jsnum \<Rightarrow> jsnum" where
  "Math_abs x = (case x of NegInf \<Rightarrow> PosInf | NegZero \<Rightarrow> Fin 0 | Fin q \<Rightarrow> Fin \<bar>q\<bar> | _ \<Rightarrow> x)"

text \<open>
  \<open>Math.round\<close>: the integer nearest to \<open>x\<close>, a tie going up; a negative \<open>x\<close> that
  rounds to zero gives the negative zero.
\<close>

definition Math_round :: "jsnum \<Rightarrow> jsnum" where
  "Math_round x =
     (case x of
        Fin q \<Rightarrow> (let r = \<lfloor>q + 1 / 2\<rfloor> in if r = 0 \<and> q < 0 then NegZero else Fin (of_int r))
      | _ \<Rightarrow> x)"

section \<open>Number formatting and parsing of the host\<close>

text \<open>
  The decimal exponent of a positive rational, \<open>10^e \<le> q < 10^(e+1)\<close>, and its first \<open>p\<close>
  significant digits \<open>n\<close> (a tie rounds up), so that \<open>q\<close> is about \<open>n * 10^(e - p + 1)\<close>.
\<close>

definition decExp :: "rat \<Rightarrow> int" where
  "decExp q = (let a = fst (quotient_of q); b = snd (quotient_of q);
                   e = int (length (digitsOf (nat a))) - int (length (digitsOf (nat b)))
               in if pow10 e \<le> q then e else e - 1)"

definition sigDigits :: "nat \<Rightarrow> rat \<Rightarrow> nat \<times> int" where
  "sigDigits p q =
     (let e = decExp q; n = nat \<lfloor>q / pow10 (e - int p + 1) + 1 / 2\<rfloor>
      in if n = 10 ^ p then (10 ^ (p - 1), e + 1) else (n, e))"

text \<open>
  \<open>String(x)\<close>, the conversion \<open>Number::toString\<close>: the shortest decimal digits that read
  back as the same double (the nearer to \<open>x\<close> where two of one length do, the even one where
  both are as near), laid out by the position \<open>n\<close> of the decimal point: plain digits for
  \<open>-6 < n \<le> 21\<close>, exponent notation otherwise. \<open>candidate k q\<close> is such a \<open>k\<close>-digit
  number if there is one; seventeen digits always identify a double, so the search from
  one digit up ends there at the latest.
\<close>

definition candidate :: "nat \<Rightarrow> rat \<Rightarrow> nat option" where
  "candidate k q =
     (let sc = pow10 (decExp q + 1 - int k); lo = nat \<lfloor>q / sc\<rfloor>; hi = lo + 1;
          okLo = (toNumber (of_nat lo * sc) = Fin q);
          okHi = (toNumber (of_nat hi * sc) = Fin q)
      in if okLo \<and> okHi
         then Some (if q - of_nat lo * sc < of_nat hi * sc - q then lo
                    else if of_nat hi * sc - q < q - of_nat lo * sc then hi
                    else if even lo then lo else hi)
         else if okLo then Some lo
         else if okHi then Some hi
         else None)"

fun shortestDigits :: "nat \<Rightarrow> nat \<Rightarrow> rat \<Rightarrow> nat \<times> nat" where
  "shortestDigits 0 k q = (nat \<lfloor>q / pow10 (decExp q + 1 - int k) + 1 / 2\<rfloor>, k)"
| "shortestDigits (Suc fuel) k q =
     (case candidate k q of
        Some s \<Rightarrow> (s, k)
      | None \<Rightarrow> shortestDigits fuel (Suc k) q)"

text \<open>
  \<open>toLocaleString mn mx\<close> is \<open>Number.prototype.toLocaleString('en-US', {minimumFractionDigits:
  mn, maximumFractionDigits: mx})\<close>. The host formats the decimal number that \<open>String(x)\<close>
  shows, the shortest digits that read back as \<open>x\<close>, and not the binary value of the
  double; an integer below \<open>2^53\<close> is that decimal number itself. This number is rounded
  to \<open>mx\<close> fraction digits (a tie away from zero), the integer part is grouped by thousands
  with commas, and trailing fraction zeros are dropped down to \<open>mn\<close> digits. Without options
  the locale's defaults are \<open>mn = 0\<close> and \<open>mx = 3\<close>.
\<close>

definition shortestDecimal :: "rat \<Rightarrow> rat" where
  "shortestDecimal a =
     (if a = 0 then 0
      else of_nat (fst (shortestDigits 17 1 a))
           * pow10 (decExp a + 1 - int (snd (shortestDigits 17 1 a))))"

definition decimalOf :: "rat \<Rightarrow> rat" where
  "decimalOf a = (if of_int \<lfloor>a\<rfloor> = a \<and> a < 2 ^ 53 then a else shortestDecimal a)"

function group3 :: "jsstring \<Rightarrow> jsstring" where
  "group3 ds = (if length ds \<le> 3 then ds
                else group3 (take (length ds - 3) ds) @ js '','' @ drop (length ds - 3) ds)"
  by pat_completeness auto
termination
  by (relation "measure length") auto

declare group3.simps [simp del]

definition padLeft :: "nat \<Rightarrow> jsstring \<Rightarrow> jsstring" where
  "padLeft n ds = replicate (n - length ds) (digitChar 0) @ ds"

definition dropTrailingZeros :: "jsstring \<Rightarrow> jsstring" where
  "dropTrailingZeros ds = rev (dropWhile (\<lambda>c. c = digitChar 0) (rev ds))"

definition formatAbs :: "nat \<Rightarrow> nat \<Rightarrow> rat \<Rightarrow> jsstring" where
  "formatAbs mn mx a =
     (let n = nat \<lfloor>a * 10 ^ mx + 1 / 2\<rfloor>;
          fp = (if mx = 0 then [] else padLeft mx (digitsOf (n mod 10 ^ mx)));
          fp' = take mn fp @ dropTrailingZeros (drop mn fp)
      in group3 (digitsOf (n div 10 ^ mx)) @ (if fp' = [] then [] else js ''.'' @ fp'))"

definition toLocaleString :: "nat \<Rightarrow> nat \<Rightarrow> jsnum \<Rightarrow> jsstring" where
  "toLocaleString mn mx x =
     (case x of
        NaN \<Rightarrow> js ''NaN''
      | PosInf \<Rightarrow> [ch_infinity]
      | NegInf \<Rightarrow> js ''-'' @ [ch_infinity]
      | NegZero \<Rightarrow> js ''-'' @ formatAbs mn mx 0
      | Fin q \<Rightarrow> (if q < 0 then js ''-'' else []) @ formatAbs mn mx (decimalOf \<bar>q\<bar>))"

definition expSuffix :: "int \<Rightarrow> jsstring" where
  "expSuffix e = js ''e'' @ (if 0 \<le> e then js ''+'' else js ''-'') @ digitsOf (nat \<bar>e\<bar>)"

definition pointAfterFirst :: "jsstring \<Rightarrow> jsstring" where
  "pointAfterFirst ds = (if length ds \<le> 1 then ds else take 1 ds @ js ''.'' @ drop 1 ds)"

text \<open>\<open>x.toExponential(f)\<close>.\<close>

definition toExponential :: "nat \<Rightarrow> jsnum \<Rightarrow> jsstring" where
  "toExponential f x =
     (case x of
        NaN \<Rightarrow> js ''NaN''
      | PosInf \<Rightarrow> js ''Infinity''
      | NegInf \<Rightarrow> js ''-Infinity''
      | NegZero \<Rightarrow> pointAfterFirst (replicate (f + 1) (digitChar 0)) @ js ''e+0''
      | Fin q \<Rightarrow>
          if q = 0 then pointAfterFirst (replicate (f + 1) (digitChar 0)) @ js ''e+0''
          else (if q < 0 then js ''-'' else [])
               @ pointAfterFirst (digitsOf (fst (sigDigits (f + 1) \<bar>q\<bar>)))
               @ expSuffix (snd (sigDigits (f + 1) \<bar>q\<bar>)))"

text \<open>\<open>x.toPrecision(p)\<close>.\<close>

definition toPrecision :: "nat \<Rightarrow> jsnum \<Rightarrow> jsstring" where
  "toPrecision p x =
     (case x of
        NaN \<Rightarrow> js ''NaN''
      | PosInf \<Rightarrow> js ''Infinity''
      | NegInf \<Rightarrow> js ''-Infinity''
      | NegZero \<Rightarrow> pointAfterFirst (replicate p (digitChar 0))
      | Fin q \<Rightarrow>
          if q = 0 then pointAfterFirst (replicate p (digitChar 0))
          else
            (let ds = digitsOf (fst (sigDigits p \<bar>q\<bar>)); e = snd (sigDigits p \<bar>q\<bar>)
             in (if q < 0 then js ''-'' else [])
                @ (if e < - 6 \<or> int p \<le> e then pointAfterFirst ds @ expSuffix e
                   else if e = int p - 1 then ds
                   else if 0 \<le> e then take (nat e + 1) ds @ js ''.'' @ drop (nat e + 1) ds
                   else js ''0.'' @ replicate (nat (- (e + 1))) (digitChar 0) @ ds)))"

text \<open>
  The layout of \<open>String(x)\<close> for a positive \<open>x\<close>: the digits found above, without their
  trailing zeros, and the decimal point at position \<open>n\<close>.
\<close>

definition positiveToString :: "rat \<Rightarrow> jsstring" where
  "positiveToString q =
     (let s = fst (shortestDigits 17 1 q); k0 = snd (shortestDigits 17 1 q);
          ds = dropTrailingZeros (digitsOf s);
          k = int (length ds);
          n = decExp q + 1 + (int (length (digitsOf s)) - int k0)
      in if k \<le> n \<and> n \<le> 21 then ds @ replicate (nat (n - k)) (digitChar 0)
         else if 0 < n \<and> n \<le> 21 then take (nat n) ds @ js ''.'' @ drop (nat n) ds
         else if - 6 < n \<and> n \<le> 0 then js ''0.'' @ replicate (nat (- n)) (digitChar 0) @ ds
         else pointAfterFirst ds @ expSuffix (n - 1))"

definition ToString :: "jsnum \<Rightarrow> jsstring" where
  "ToString x =
     (case x of
        NaN \<Rightarrow> js ''NaN''
      | PosInf \<Rightarrow> js ''Infinity''
      | NegInf \<Rightarrow> js ''-Infinity''
      | NegZero \<Rightarrow> js ''0''
      | Fin q \<Rightarrow> if q = 0 then js ''0''
                 else if q < 0 then js ''-'' @ positiveToString (- q)
                 else positiveToString q)"

text \<open>
  \<open>parseFloat\<close>: leading white space is skipped, then the longest prefix that is a
  decimal literal (a sign, \<open>Infinity\<close> or digits with an optional fraction and an optional
  exponent) is read; \<open>NaN\<close> when there is none.
\<close>

definition exponentPart :: "jsstring \<Rightarrow> int" where
  "exponentPart r =
     (if r \<noteq> [] \<and> (hd r = of_char CHR ''e'' \<or> hd r = of_char CHR ''E'')
      then (let r1 = tl r;
                neg = (r1 \<noteq> [] \<and> hd r1 = of_char CHR ''-'');
                r2 = (if r1 \<noteq> [] \<and> (hd r1 = of_char CHR ''-'' \<or> hd r1 = of_char CHR ''+'')
                      then tl r1 else r1);
                ds = takeWhile isDigit r2
            in if ds = [] then 0
               else if neg then - int (natOfDigits ds) else int (natOfDigits ds))
      else 0)"

definition parseFloat :: "jsstring \<Rightarrow> jsnum" where
  "parseFloat s =
     (let t = dropWhile isSpace s;
          neg = (t \<noteq> [] \<and> hd t = of_char CHR ''-'');
          u = (if t \<noteq> [] \<and> (hd t = of_char CHR ''-'' \<or> hd t = of_char CHR ''+'')
               then tl t else t)
      in if take 8 u = js ''Infinity'' then (if neg then NegInf else PosInf)
         else
           (let ip = takeWhile isDigit u;
                r1 = dropWhile isDigit u;
                dot = (r1 \<noteq> [] \<and> hd r1 = of_char CHR ''.'');
                fp = (if dot then takeWhile isDigit (tl r1) else []);
                r2 = (if dot then dropWhile isDigit (tl r1) else r1)
            in if ip = [] \<and> fp = [] then NaN
               else
                 (let v = toNumber (of_nat (natOfDigits (ip @ fp))
                                     * pow10 (exponentPart r2 - int (length fp)))
                  in if neg then js_neg v else v)))"

section \<open>The host's evaluation of a function body\<close>

text \<open>
  \<open>evaluateExpression\<close> hands a text to \<open>new Function('factorial', body)\<close> and calls the
  function it gets with \<open>factorialFn\<close>. What the host does with a body is a parameter of
  the calculator's operations, an \<open>engine\<close>: the outcome is a number or an error, where
  an error stands for every outcome that is not a number (a \<open>SyntaxError\<close> when the body
  does not compile, an exception when it runs, or a value that is not a number: both
  callers treat all of these alike).

  \<open>js_run\<close> is the engine on the arithmetic fragment of strict-mode ECMAScript: decimal
  literals, unary and binary \<open>+ - * /\<close>, parentheses and calls of \<open>factorial\<close> with one
  argument. A text outside the fragment (\<open>Math\<close> functions, \<open>**\<close>, \<open>!\<close>, commas, comments,
  white space, exponents) or a parse that runs out of fuel is marked \<open>Unsupported\<close>: the
  fragment does not tell what the host does with it. A host is any engine that agrees
  with \<open>js_run\<close> on the fragment: \<open>js_host rest\<close> answers as \<open>js_run\<close> does where \<open>js_run\<close>
  has an answer, and as \<open>rest\<close> does on every other text. What is proved of the evaluation
  of a text is proved of \<open>js_host rest\<close> for every \<open>rest\<close>.
\<close>

datatype jserror = InvalidExpression | SyntaxError | TypeError | NonNumeric | Unsupported

type_synonym engine = "(jsnum \<Rightarrow> jsnum) \<Rightarrow> jsstring \<Rightarrow> jserror + jsnum"

datatype token = TNum jsnum | TFactorial | TPlus | TMinus | TStar | TSlash | TLParen | TRParen

datatype ast = Lit jsnum | Neg ast | Pos ast | Add ast ast | Sub ast ast | Mul ast ast
  | Div ast ast | CallFactorial ast | CallValue ast

text \<open>
  A decimal literal at the head of a text: digits with an optional fraction, or a
  fraction alone. In strict mode an integer part of two or more digits that starts with
  \<open>0\<close> is a \<open>SyntaxError\<close>. A literal followed by a letter is left to the full language
  (an exponent, a BigInt suffix or an error).
\<close>

definition afterLiteral :: "jsstring \<Rightarrow> jsstring" where
  "afterLiteral s =
     (let r1 = dropWhile isDigit s
      in if r1 \<noteq> [] \<and> hd r1 = of_char CHR ''.'' then dropWhile isDigit (tl r1) else r1)"

definition numericLiteral :: "jsstring \<Rightarrow> jserror + jsnum" where
  "numericLiteral s =
     (let ip = takeWhile isDigit s;
          r1 = dropWhile isDigit s;
          fp = (if r1 \<noteq> [] \<and> hd r1 = of_char CHR ''.'' then takeWhile isDigit (tl r1) else []);
          r2 = afterLiteral s
      in if ip = [] \<and> fp = [] then Inl Unsupported
         else if 2 \<le> length ip \<and> hd ip = of_char CHR ''0'' then Inl SyntaxError
         else if r2 \<noteq> [] \<and> (isWord (hd r2) \<or> hd r2 = of_char CHR ''$'') then Inl Unsupported
         else Inr (toNumber (of_nat (natOfDigits (ip @ fp)) / 10 ^ length fp)))"

definition isIdentChar :: "jschar \<Rightarrow> bool" where
  "isIdentChar c = (isWord c \<or> c = of_char CHR ''$'')"

definition consTok :: "token \<Rightarrow> jserror + token list \<Rightarrow> jserror + token list" where
  "consTok t r = (case r of Inl e \<Rightarrow> Inl e | Inr ts \<Rightarrow> Inr (t # ts))"

definition nextIs :: "jschar \<Rightarrow> jsstring \<Rightarrow> bool" where
  "nextIs c cs = (cs \<noteq> [] \<and> hd cs = c)"

function tokenize :: "jsstring \<Rightarrow> jserror + token list" where
  "tokenize s =
     (if s = [] then Inr []
      else if isDigit (hd s) \<or> hd s = of_char CHR ''.''
        then (case numericLiteral s of
                Inl e \<Rightarrow> Inl e
              | Inr v \<Rightarrow> consTok (TNum v) (tokenize (afterLiteral s)))
      else if isLetter (hd s)
        then (if takeWhile isIdentChar s = js ''factorial''
              then consTok TFactorial (tokenize (dropWhile isIdentChar s))
              else Inl Unsupported)
      else if hd s = of_char CHR ''('' then consTok TLParen (tokenize (tl s))
      else if hd s = of_char CHR '')'' then consTok TRParen (tokenize (tl s))
      else if hd s = of_char CHR ''+''
        then (if nextIs (of_char CHR ''+'') (tl s) then Inl Unsupported
              else consTok TPlus (tokenize (tl s)))
      else if hd s = of_char CHR ''-''
        then (if nextIs (of_char CHR ''-'') (tl s) then Inl Unsupported
              else consTok TMinus (tokenize (tl s)))
      else if hd s = of_char CHR ''*''
        then (if nextIs (of_char CHR ''*'') (tl s) then Inl Unsupported
              else consTok TStar (tokenize (tl s)))
      else if hd s = of_char CHR ''/''
        then (if nextIs (of_char CHR ''/'') (tl s) \<or> nextIs (of_char CHR ''*'') (tl s)
              then Inl Unsupported
              else consTok TSlash (tokenize (tl s)))
      else Inl Unsupported)"
  by pat_completeness auto
termination
proof (relation "measure length", goal_cases)
  case 1
  show ?case by simp
next
  case (2 s v)
  obtain c cs where s: "s = c # cs"
    using 2(1) by (cases s) auto
  have le: "length (dropWhile isDigit xs) \<le> length xs" for xs
    by (rule length_dropWhile_le)
  have "length (afterLiteral s) < length s"
  proof (cases "isDigit c")
    case True
    then have r1: "dropWhile isDigit s = dropWhile isDigit cs"
      by (simp add: s)
    show ?thesis
    proof (cases "dropWhile isDigit cs")
      case Nil
      have "afterLiteral s = []"
        unfolding afterLiteral_def Let_def r1 Nil by simp
      then show ?thesis by (simp add: s)
    next
      case (Cons d ds)
      have "length (dropWhile isDigit ds) \<le> length ds"
        by (rule le)
      moreover have "length (d # ds) \<le> length cs"
        using le [of cs] Cons by simp
      moreover have "afterLiteral s
          = (if d = of_char CHR ''.'' then dropWhile isDigit ds else d # ds)"
        unfolding afterLiteral_def Let_def r1 Cons by simp
      ultimately show ?thesis
        by (simp add: s)
    qed
  next
    case False
    then have "c = of_char CHR ''.''"
      using 2(2) by (simp add: s)
    with False show ?thesis
      using le [of cs] by (simp add: afterLiteral_def s Let_def)
  qed
  then show ?case by simp
next
  case (3 s)
  obtain c cs where s: "s = c # cs"
    using 3(1) by (cases s) auto
  have "isIdentChar c"
    using 3(3) by (simp add: s isIdentChar_def isWord_def)
  then have "dropWhile isIdentChar s = dropWhile isIdentChar cs"
    by (simp add: s)
  moreover have "length (dropWhile isIdentChar cs) \<le> length cs"
    by (rule length_dropWhile_le)
  ultimately show ?case by (simp add: s)
qed (simp_all add: diff_less)

declare tokenize.simps [simp del]

text \<open>
  The parser climbs the precedences of the binary operators (\<open>+ -\<close> below \<open>* /\<close>, all
  left-associative); \<open>parseOperand\<close> reads the unary operators and a primary
  expression, \<open>parsePostfix\<close> the call of a value that is not a function (a \<open>TypeError\<close> when it runs).
  The fuel bounds the depth of the recursion.
\<close>

definition prec :: "token \<Rightarrow> nat option" where
  "prec t = (case t of TPlus \<Rightarrow> Some 1 | TMinus \<Rightarrow> Some 1 | TStar \<Rightarrow> Some 2
             | TSlash \<Rightarrow> Some 2 | _ \<Rightarrow> None)"

definition binary :: "token \<Rightarrow> ast \<Rightarrow> ast \<Rightarrow> ast" where
  "binary t a b = (case t of TPlus \<Rightarrow> Add a b | TMinus \<Rightarrow> Sub a b | TStar \<Rightarrow> Mul a b
                   | _ \<Rightarrow> Div a b)"

function (sequential) parseExpr :: "nat \<Rightarrow> token list \<Rightarrow> jserror + ast \<times> token list"
  and parseClimb :: "nat \<Rightarrow> nat \<Rightarrow> ast \<Rightarrow> token list \<Rightarrow> jserror + ast \<times> token list"
  and parseOperand :: "nat \<Rightarrow> token list \<Rightarrow> jserror + ast \<times> token list"
  and parseGroup :: "nat \<Rightarrow> token list \<Rightarrow> jserror + ast \<times> token list"
  and parsePostfix :: "nat \<Rightarrow> ast \<Rightarrow> token list \<Rightarrow> jserror + ast \<times> token list"
where
  "parseExpr 0 ts = Inl Unsupported"
| "parseExpr (Suc n) ts =
     (case parseOperand n ts of Inl e \<Rightarrow> Inl e | Inr (a, r) \<Rightarrow> parseClimb n 1 a r)"
| "parseClimb 0 m a ts = Inl Unsupported"
| "parseClimb (Suc n) m a [] = Inr (a, [])"
| "parseClimb (Suc n) m a (t # r) =
     (case prec t of
        None \<Rightarrow> Inr (a, t # r)
      | Some p \<Rightarrow>
          if p < m then Inr (a, t # r)
          else (case parseOperand n r of
                  Inl e \<Rightarrow> Inl e
                | Inr (b, r1) \<Rightarrow>
                    (case parseClimb n (Suc p) b r1 of
                       Inl e \<Rightarrow> Inl e
                     | Inr (c, r2) \<Rightarrow> parseClimb n m (binary t a c) r2)))"
| "parseOperand 0 ts = Inl Unsupported"
| "parseOperand (Suc n) [] = Inl SyntaxError"
| "parseOperand (Suc n) (t # r) =
     (case t of
        TMinus \<Rightarrow> (case parseOperand n r of Inl e \<Rightarrow> Inl e | Inr (a, r1) \<Rightarrow> Inr (Neg a, r1))
      | TPlus \<Rightarrow> (case parseOperand n r of Inl e \<Rightarrow> Inl e | Inr (a, r1) \<Rightarrow> Inr (Pos a, r1))
      | TNum v \<Rightarrow> parsePostfix n (Lit v) r
      | TLParen \<Rightarrow> (case parseGroup n r of Inl e \<Rightarrow> Inl e | Inr (a, r1) \<Rightarrow> parsePostfix n a r1)
      | TFactorial \<Rightarrow>
          (case r of
             TLParen # r1 \<Rightarrow>
               (case r1 of
                  TRParen # r2 \<Rightarrow> Inl Unsupported
                | _ \<Rightarrow> (case parseGroup n r1 of
                          Inl e \<Rightarrow> Inl e
                        | Inr (a, r2) \<Rightarrow> parsePostfix n (CallFactorial a) r2))
           | _ \<Rightarrow> Inl Unsupported)
      | TSlash \<Rightarrow> Inl Unsupported
      | TStar \<Rightarrow> Inl SyntaxError
      | TRParen \<Rightarrow> Inl SyntaxError)"
| "parseGroup 0 ts = Inl Unsupported"
| "parseGroup (Suc n) ts =
     (case parseExpr n ts of
        Inl e \<Rightarrow> Inl e
      | Inr (a, r) \<Rightarrow> (case r of TRParen # r1 \<Rightarrow> Inr (a, r1) | _ \<Rightarrow> Inl SyntaxError))"
| "parsePostfix 0 a ts = Inl Unsupported"
| "parsePostfix (Suc n) a ts =
     (case ts of
        TLParen # TRParen # r \<Rightarrow> parsePostfix n (CallValue a) r
      | TLParen # r \<Rightarrow>
          (case parseGroup n r of Inl e \<Rightarrow> Inl e | Inr (b, r1) \<Rightarrow> parsePostfix n (CallValue a) r1)
      | _ \<Rightarrow> Inr (a, ts))"
  by pat_completeness auto
termination
  by (relation "measure (case_sum (case_sum (\<lambda>p. fst p) (\<lambda>p. fst p))
        (case_sum (\<lambda>p. fst p) (case_sum (\<lambda>p. fst p) (\<lambda>p. fst p))))") simp_all

definition bind2 :: "(jsnum \<Rightarrow> jsnum \<Rightarrow> jsnum) \<Rightarrow> jserror + jsnum \<Rightarrow> jserror + jsnum
    \<Rightarrow> jserror + jsnum" where
  "bind2 f x y = (case x of Inl e \<Rightarrow> Inl e
                  | Inr v \<Rightarrow> (case y of Inl e \<Rightarrow> Inl e | Inr w \<Rightarrow> Inr (f v w)))"

definition bind1 :: "(jsnum \<Rightarrow> jsnum) \<Rightarrow> jserror + jsnum \<Rightarrow> jserror + jsnum" where
  "bind1 f x = (case x of Inl e \<Rightarrow> Inl e | Inr v \<Rightarrow> Inr (f v))"

fun evalAst :: "(jsnum \<Rightarrow> jsnum) \<Rightarrow> ast \<Rightarrow> jserror + jsnum" where
  "evalAst f (Lit v) = Inr v"
| "evalAst f (Neg a) = bind1 js_neg (evalAst f a)"
| "evalAst f (Pos a) = evalAst f a"
| "evalAst f (Add a b) = bind2 js_add (evalAst f a) (evalAst f b)"
| "evalAst f (Sub a b) = bind2 js_sub (evalAst f a) (evalAst f b)"
| "evalAst f (Mul a b) = bind2 js_mul (evalAst f a) (evalAst f b)"
| "evalAst f (Div a b) = bind2 js_div (evalAst f a) (evalAst f b)"
| "evalAst f (CallFactorial a) = bind1 f (evalAst f a)"
| "evalAst f (CallValue a) = (case evalAst f a of Inl e \<Rightarrow> Inl e | Inr v \<Rightarrow> Inl TypeError)"

definition bodyPrefix :: jsstring where
  \<open>bodyPrefix = js ''"use strict"; return (''\<close>

definition js_run :: engine where
  "js_run f body =
     (if take (length bodyPrefix) body \<noteq> bodyPrefix then Inl Unsupported
      else (case tokenize (of_char CHR ''('' # drop (length bodyPrefix) body) of
              Inl e \<Rightarrow> Inl e
            | Inr ts \<Rightarrow>
                (case parseExpr (3 * length ts + 3) ts of
                   Inl e \<Rightarrow> Inl e
                 | Inr (a, r) \<Rightarrow> if r = [] then evalAst f a else Inl SyntaxError)))"

definition js_host :: "engine \<Rightarrow> engine" where
  "js_host rest f body =
     (case js_run f body of
        Inl e \<Rightarrow> if e = Unsupported then rest f body else Inl e
      | Inr v \<Rightarrow> Inr v)"

section \<open>The evaluation engine of the calculator\<close>

text \<open>
  \<open>factorialFn\<close>, the function the evaluated text calls as \<open>factorial\<close>. The loop
  \<open>for (let i = 2; i <= n; i++) result *= i\<close> runs with \<open>n\<close> an integer between 2 and 170
  (or with \<open>n\<close> NaN, when its condition is false at once), so its counter is an integer.
\<close>

function fact_loop :: "int \<Rightarrow> int \<Rightarrow> jsnum \<Rightarrow> jsnum" where
  "fact_loop i n res = (if i \<le> n then fact_loop (i + 1) n (js_mul res (Fin (of_int i))) else res)"
  by pat_completeness auto
termination
  by (relation "measure (\<lambda>(i, n, res). nat (n + 1 - i))") auto

declare fact_loop.simps [simp del]

definition factorialFn :: "jsnum \<Rightarrow> jsnum" where
  "factorialFn n0 =
     (let n = Math_round n0
      in if js_lt n (Fin 0) then NaN
         else if js_eq n (Fin 0) \<or> js_eq n (Fin 1) then Fin 1
         else if js_lt (Fin 170) n then PosInf
         else (case n of Fin q \<Rightarrow> fact_loop 2 \<lfloor>q\<rfloor> (Fin 1) | _ \<Rightarrow> Fin 1))"

text \<open>The rewriting of the expression into the text that is evaluated.\<close>

definition replacePi :: "jsstring \<Rightarrow> jsstring" where
  "replacePi s = concat (map (\<lambda>c. if c = ch_pi then js ''(Math.PI)'' else [c]) s)"

text \<open>
  \<open>/(?<![a-zA-Z])e(?![a-zA-Z])/g\<close>: an \<open>e\<close> with no letter before it and none after it;
  \<open>prev\<close> is the code unit before the position.
\<close>

fun replaceE :: "jschar option \<Rightarrow> jsstring \<Rightarrow> jsstring" where
  "replaceE prev [] = []"
| "replaceE prev (c # cs) =
     (if c = of_char CHR ''e''
         \<and> \<not> (case prev of None \<Rightarrow> False | Some p \<Rightarrow> isLetter p)
         \<and> \<not> (cs \<noteq> [] \<and> isLetter (hd cs))
      then js ''(Math.E)'' @ replaceE (Some c) cs
      else c # replaceE (Some c) cs)"

definition replaceCaret :: "jsstring \<Rightarrow> jsstring" where
  "replaceCaret s = concat (map (\<lambda>c. if c = of_char CHR ''^'' then js ''**'' else [c]) s)"

text \<open>\<open>/(\d+)!/g\<close>: a maximal run of digits followed by \<open>!\<close> becomes a call of \<open>factorial\<close>.\<close>

function rewriteFactorial :: "jsstring \<Rightarrow> jsstring" where
  "rewriteFactorial s =
     (if s = [] then []
      else if isDigit (hd s)
        then (if nextIs (of_char CHR ''!'') (dropWhile isDigit s)
              then js ''factorial('' @ takeWhile isDigit s @ js '')''
                   @ rewriteFactorial (tl (dropWhile isDigit s))
              else takeWhile isDigit s @ rewriteFactorial (dropWhile isDigit s))
      else hd s # rewriteFactorial (tl s))"
  by pat_completeness auto
termination
proof (relation "measure length", goal_cases)
  case 1
  show ?case by simp
next
  case (2 s)
  then obtain c cs where s: "s = c # cs" and c: "isDigit c"
    by (cases s) auto
  have "length (tl (dropWhile isDigit cs)) \<le> length cs"
    using length_dropWhile_le [of isDigit cs] by simp
  then show ?case by (simp add: s c)
next
  case (3 s)
  then obtain c cs where s: "s = c # cs" and c: "isDigit c"
    by (cases s) auto
  have "length (dropWhile isDigit cs) \<le> length cs"
    by (rule length_dropWhile_le)
  then show ?case by (simp add: s c)
next
  case (4 s)
  then show ?case by (cases s) auto
qed

declare rewriteFactorial.simps [simp del]

definition transform :: "jsstring \<Rightarrow> jsstring" where
  "transform e =
     rewriteFactorial
       (replaceCaret
         (replaceAll (js ''abs('') (js ''Math.abs('')
           (replaceAll (js ''sqrt('') (js ''Math.sqrt('')
             (replaceAll (js ''ln('') (js ''Math.log('')
               (replaceAll (js ''log('') (js ''Math.log10('')
                 (replaceAll (js ''tan('') (js ''Math.tan('')
                   (replaceAll (js ''cos('') (js ''Math.cos('')
                     (replaceAll (js ''sin('') (js ''Math.sin('')
                       (replaceE None (replacePi e))))))))))"

text \<open>Closing the parentheses left open: one \<open>)\<close> for each \<open>(\<close> without its partner.\<close>

definition closeParens :: "jsstring \<Rightarrow> jsstring" where
  "closeParens t =
     t @ replicate (countChar (of_char CHR ''('') t - countChar (of_char CHR '')'') t)
           (of_char CHR '')'')"

text \<open>
  The check before the evaluation: with every \<open>Math.\<close>\<^emph>\<open>name\<close> and every \<open>factorial\<close> taken
  out, the text holds only code units of the class
  \<open>[0-9+\-*/().Math\s,sincotaglqrtbfcoeialEPI^!]\<close>.
\<close>

function removeMath :: "jsstring \<Rightarrow> jsstring" where
  "removeMath s =
     (if s = [] then []
      else if take 5 s = js ''Math.'' \<and> drop 5 s \<noteq> [] \<and> isWord (hd (drop 5 s))
        then removeMath (dropWhile isWord (drop 5 s))
        else hd s # removeMath (tl s))"
  by pat_completeness auto
termination
proof (relation "measure length", goal_cases)
  case 1
  show ?case by simp
next
  case (2 s)
  have "length (dropWhile isWord (drop 5 s)) \<le> length (drop 5 s)"
    by (rule length_dropWhile_le)
  moreover have "length (drop 5 s) < length s"
    using 2 by (cases s) auto
  ultimately show ?case by simp
next
  case (3 s)
  then show ?case by (cases s) auto
qed

declare removeMath.simps [simp del]

definition allowedChar :: "jschar \<Rightarrow> bool" where
  "allowedChar c =
     (c \<in> set (js ''0123456789+-*/().Math,sincotaglqrtbfcoeialEPI^!'') \<or> isSpace c)"

definition evaluateExpression :: "engine \<Rightarrow> jsstring \<Rightarrow> jserror + jsnum" where
  "evaluateExpression run e =
     (let transformed = closeParens (transform e)
      in if \<not> list_all allowedChar (replaceAll (js ''factorial'') [] (removeMath transformed))
         then Inl InvalidExpression
         else run factorialFn (bodyPrefix @ transformed @ js '')''))"

definition formatResult :: "jsnum \<Rightarrow> jsstring" where
  "formatResult num =
     (if Number_isInteger num \<and> js_lt (Math_abs num) (Fin (10 ^ 15))
      then toLocaleString 0 3 num
      else if js_ge (Math_abs num) (Fin (10 ^ 15))
              \<or> (js_lt (Math_abs num) (toNumber (1 / 10000)) \<and> \<not> js_eq num (Fin 0))
      then toExponential 6 num
      else toLocaleString 0 10 (parseFloat (toPrecision 12 num)))"

definition formatExpression :: "jsstring \<Rightarrow> jsstring" where
  "formatExpression e =
     map (\<lambda>c. if c = of_char CHR ''*'' then ch_times
               else if c = of_char CHR ''/'' then ch_divide
               else if c = of_char CHR ''-'' then ch_minus else c) e"

definition isOperator :: "jsstring \<Rightarrow> bool" where
  "isOperator c = (c \<in> set [js ''+'', js ''-'', js ''*'', js ''/''])"

text \<open>
  Two binary-operator characters next to each other somewhere in a text. A text is well
  formed when it has no such pair and does not start with \<open>+\<close>, \<open>*\<close> or \<open>/\<close>.
\<close>

definition isOpChar :: "jschar \<Rightarrow> bool" where
  "isOpChar c = (c \<in> set (js ''+-*/''))"

fun consecOps :: "jsstring \<Rightarrow> bool" where
  "consecOps (a # b # cs) = ((isOpChar a \<and> isOpChar b) \<or> consecOps (b # cs))"
| "consecOps cs = False"

definition wellFormed :: "jsstring \<Rightarrow> bool" where
  "wellFormed e = (\<not> consecOps e \<and> (e \<noteq> [] \<longrightarrow> hd e \<notin> set (js ''+*/'')))"

section \<open>The state of the calculator and its operations\<close>

text \<open>
  The module's variables and the text of the two display elements form the state;
  every handler is a function from state to state. The animation classes and the
  rendered history list are left out: nothing reads them back.
\<close>

record entry =
  expr :: jsstring
  result :: jsstring
  time :: jsstring

record calc =
  expression :: jsstring
  currentResult :: jsstring
  history :: "entry list"
  historyOpen :: bool
  lastAnswer :: "jsnum option"
  exprEl :: jsstring
  resultEl :: jsstring
  resultError :: bool

definition initial :: calc where
  "initial = \<lparr>expression = [], currentResult = js ''0'', history = [], historyOpen = False,
     lastAnswer = None, exprEl = [], resultEl = js ''0'', resultError = False\<rparr>"

definition updateDisplay :: "calc \<Rightarrow> calc" where
  "updateDisplay s = s\<lparr>exprEl := formatExpression (expression s)\<rparr>"

definition showError :: "jsstring \<Rightarrow> calc \<Rightarrow> calc" where
  "showError msg s = s\<lparr>resultEl := msg, resultError := True, expression := [], lastAnswer := None\<rparr>"

definition liveEvaluate :: "engine \<Rightarrow> calc \<Rightarrow> calc" where
  "liveEvaluate run s =
     (if expression s = []
      then s\<lparr>currentResult := js ''0'', resultEl := js ''0'', resultError := False\<rparr>
      else if isOperator (sliceLast (closeParens (expression s))) then s
      else (case evaluateExpression run (closeParens (expression s)) of
              Inl e \<Rightarrow> s
            | Inr res \<Rightarrow>
                if \<not> isNaN res \<and> isFinite res
                then s\<lparr>currentResult := formatResult res, resultEl := formatResult res,
                       resultError := False\<rparr>
                else s))"

definition toggleSign :: "engine \<Rightarrow> calc \<Rightarrow> calc" where
  "toggleSign run s =
     liveEvaluate run (updateDisplay
       (case lastAnswer s of
          Some a \<Rightarrow>
            if expression s = [] then s\<lparr>expression := ToString (js_neg a), lastAnswer := None\<rparr>
            else if take 1 (expression s) = js ''-'' then s\<lparr>expression := drop 1 (expression s)\<rparr>
            else s\<lparr>expression := js ''-'' @ expression s\<rparr>
        | None \<Rightarrow>
            if take 1 (expression s) = js ''-'' then s\<lparr>expression := drop 1 (expression s)\<rparr>
            else if expression s \<noteq> [] then s\<lparr>expression := js ''-'' @ expression s\<rparr>
            else s))"

text \<open>The current number segment: what follows the last operator or parenthesis.\<close>

definition lastSeg :: "jsstring \<Rightarrow> jsstring" where
  "lastSeg e = rev (takeWhile (\<lambda>c. c \<notin> set (js ''+-*/()'')) (rev e))"

definition inputNum :: "engine \<Rightarrow> jsstring \<Rightarrow> calc \<Rightarrow> calc" where
  "inputNum run v s =
     (if v = [ch_plusminus] then toggleSign run s
      else if v = js ''.'' \<and> of_char CHR ''.'' \<in> set (lastSeg (expression s)) then s
      else liveEvaluate run (updateDisplay
             (if lastAnswer s \<noteq> None \<and> \<not> isOperator (sliceLast (expression s))
              then s\<lparr>expression := v, lastAnswer := None\<rparr>
              else s\<lparr>expression := expression s @ v\<rparr>)))"

definition inputOp :: "jsstring \<Rightarrow> calc \<Rightarrow> calc" where
  "inputOp op s =
     (let e1 = (case lastAnswer s of
                  Some a \<Rightarrow> if expression s = [] then ToString a else expression s
                | None \<Rightarrow> expression s);
          e2 = (if e1 \<noteq> [] \<and> isOperator (sliceLast e1) then butlast e1 else e1)
      in if e2 = [] \<and> op \<noteq> js ''-'' then s\<lparr>expression := e2\<rparr>
         else updateDisplay (s\<lparr>expression := e2 @ op, lastAnswer := None\<rparr>))"

definition inputParenthesis :: "engine \<Rightarrow> calc \<Rightarrow> calc" where
  "inputParenthesis run s =
     liveEvaluate run (updateDisplay
       (if expression s = [] \<or> sliceLast (expression s) = js ''(''
           \<or> isOperator (sliceLast (expression s))
        then s\<lparr>expression := expression s @ js ''(''\<rparr>
        else if countChar (of_char CHR '')'') (expression s)
                < countChar (of_char CHR ''('') (expression s)
        then s\<lparr>expression := expression s @ js '')''\<rparr>
        else s\<lparr>expression := expression s @ js ''*(''\<rparr>))"

text \<open>
  \<open>expression.match(/(sin|cos|tan|log|ln|sqrt|abs)\($/)\<close>: the first position from the
  left at which a function name, tried in the order written, is followed by \<open>(\<close> and
  the end of the text; the result is the name.
\<close>

definition funcNames :: "jsstring list" where
  "funcNames = [js ''sin'', js ''cos'', js ''tan'', js ''log'', js ''ln'', js ''sqrt'', js ''abs'']"

fun funcMatch :: "jsstring \<Rightarrow> jsstring option" where
  "funcMatch [] = None"
| "funcMatch (c # cs) =
     (case find (\<lambda>n. c # cs = n @ js ''('') funcNames of
        Some n \<Rightarrow> Some n
      | None \<Rightarrow> funcMatch cs)"

definition backspace :: "engine \<Rightarrow> calc \<Rightarrow> calc" where
  "backspace run s =
     (if length (expression s) = 0 then s
      else liveEvaluate run (updateDisplay
             (case funcMatch (expression s) of
                Some n \<Rightarrow> s\<lparr>expression := take (length (expression s) - (length n + 1)) (expression s)\<rparr>
              | None \<Rightarrow> s\<lparr>expression := butlast (expression s)\<rparr>)))"

definition clearAll :: "calc \<Rightarrow> calc" where
  "clearAll s =
     (updateDisplay (s\<lparr>expression := [], currentResult := js ''0'', lastAnswer := None\<rparr>))
       \<lparr>resultError := False\<rparr>"

definition sciFunc :: "engine \<Rightarrow> jsstring \<Rightarrow> calc \<Rightarrow> calc" where
  "sciFunc run func s0 =
     (let s = (case lastAnswer s0 of
                 Some a \<Rightarrow> if expression s0 = []
                           then s0\<lparr>expression := ToString a, lastAnswer := None\<rparr> else s0
               | None \<Rightarrow> s0);
          e = expression s;
          mult = (if e \<noteq> [] \<and> \<not> isOperator (sliceLast e) \<and> sliceLast e \<noteq> js ''(''
                  then e @ js ''*'' else e)
      in liveEvaluate run (updateDisplay (s\<lparr>expression :=
           (if func = js ''sin'' then e @ js ''sin(''
            else if func = js ''cos'' then e @ js ''cos(''
            else if func = js ''tan'' then e @ js ''tan(''
            else if func = js ''log'' then e @ js ''log(''
            else if func = js ''ln'' then e @ js ''ln(''
            else if func = js ''sqrt'' then e @ js ''sqrt(''
            else if func = js ''abs'' then e @ js ''abs(''
            else if func = js ''pow'' then (if e \<noteq> [] then js ''('' @ e @ js '')^2'' else e)
            else if func = js ''pi'' then mult @ [ch_pi]
            else if func = js ''e'' then mult @ js ''e''
            else if func = js ''factorial'' then (if e \<noteq> [] then e @ js ''!'' else e)
            else if func = js ''inv'' then (if e \<noteq> [] then js ''1/('' @ e @ js '')'' else e)
            else e)\<rparr>)))"

subsection \<open>History\<close>

text \<open>\<open>now\<close> is the time of day the host's clock gives when the entry is made.\<close>

definition addHistory :: "jsstring \<Rightarrow> jsstring \<Rightarrow> jsstring \<Rightarrow> calc \<Rightarrow> calc" where
  "addHistory now e r s =
     (let h = \<lparr>expr = e, result = r, time = now\<rparr> # history s
      in s\<lparr>history := (if 50 < length h then butlast h else h)\<rparr>)"

definition clearHistory :: "calc \<Rightarrow> calc" where
  "clearHistory s = s\<lparr>history := []\<rparr>"

definition toggleHistory :: "calc \<Rightarrow> calc" where
  "toggleHistory s = s\<lparr>historyOpen := \<not> historyOpen s\<rparr>"

text \<open>Recording a list of entries, one after the other, the first of the list first.\<close>

primrec record_all :: "calc \<Rightarrow> entry list \<Rightarrow> calc" where
  "record_all s [] = s"
| "record_all s (h # hs) = record_all (addHistory (time h) (expr h) (result h) s) hs"

text \<open>An entry that carries a number, to tell the entries of an example apart.\<close>

definition numbered :: "nat \<Rightarrow> entry" where
  "numbered i = \<lparr>expr = digitsOf i, result = digitsOf i, time = []\<rparr>"

text \<open>
  \<open>history[index]\<close> is \<open>undefined\<close> outside the list, and the handler returns at once.
\<close>

definition recallHistory :: "int \<Rightarrow> calc \<Rightarrow> calc" where
  "recallHistory i s =
     (if i < 0 \<or> int (length (history s)) \<le> i then s
      else (let item = history s ! nat i;
                num = parseFloat (filter (\<lambda>c. c \<noteq> of_char CHR '','') (result item));
                s1 = s\<lparr>expression := []\<rparr>
            in toggleHistory
                 (if \<not> isNaN num
                  then s1\<lparr>lastAnswer := Some num, currentResult := result item,
                          resultEl := result item,
                          exprEl := formatExpression (expr item) @ js '' ='',
                          resultError := False\<rparr>
                  else s1)))"

subsection \<open>Commit\<close>

definition calculate :: "engine \<Rightarrow> jsstring \<Rightarrow> calc \<Rightarrow> calc" where
  "calculate run now s =
     (if expression s = [] then s
      else (case evaluateExpression run (expression s) of
              Inl e \<Rightarrow> showError (js ''Error'') s
            | Inr res \<Rightarrow>
                if isNaN res then showError (js ''Error'') s
                else if \<not> isFinite res then showError (js ''Infinity'') s
                else (addHistory now (expression s) (formatResult res) s)
                       \<lparr>lastAnswer := Some res,
                        exprEl := formatExpression (expression s) @ js '' ='',
                        expression := [],
                        currentResult := formatResult res,
                        resultEl := formatResult res,
                        resultError := False\<rparr>))"

subsection \<open>The states the handlers reach\<close>

text \<open>
  The keys: \<open>inputNum\<close> is called with a digit, the decimal point or the sign key,
  \<open>inputOp\<close> with one of the four operators; \<open>sciFunc\<close> may get any name, \<open>recallHistory\<close> any
  index and \<open>calculate\<close> any time of day.
\<close>

definition isNumKey :: "jsstring \<Rightarrow> bool" where
  "isNumKey v = (v = [ch_plusminus] \<or> v = js ''.'' \<or> (length v = 1 \<and> isDigit (hd v)))"

inductive reachable :: "engine \<Rightarrow> calc \<Rightarrow> bool" for run :: engine where
  r_initial: "reachable run initial"
| r_inputNum: "reachable run s \<Longrightarrow> isNumKey v \<Longrightarrow> reachable run (inputNum run v s)"
| r_inputOp: "reachable run s \<Longrightarrow> isOperator op \<Longrightarrow> reachable run (inputOp op s)"
| r_inputParenthesis: "reachable run s \<Longrightarrow> reachable run (inputParenthesis run s)"
| r_backspace: "reachable run s \<Longrightarrow> reachable run (backspace run s)"
| r_clearAll: "reachable run s \<Longrightarrow> reachable run (clearAll s)"
| r_toggleSign: "reachable run s \<Longrightarrow> reachable run (toggleSign run s)"
| r_sciFunc: "reachable run s \<Longrightarrow> reachable run (sciFunc run func s)"
| r_calculate: "reachable run s \<Longrightarrow> reachable run (calculate run now s)"
| r_recallHistory: "reachable run s \<Longrightarrow> reachable run (recallHistory i s)"
| r_clearHistory: "reachable run s \<Longrightarrow> reachable run (clearHistory s)"
| r_toggleHistory: "reachable run s \<Longrightarrow> reachable run (toggleHistory s)"

subsection \<open>The last answer and the expression\<close>

text \<open>
  A last answer is kept only while the expression is empty. \<open>committed_2_plus_2\<close> is the
  state after the keys \<open>2\<close>, \<open>+\<close>, \<open>2\<close> and \<open>=\<close>; \<open>lone_minus\<close> is the state after the
  parenthesis key, the sign key and backspace have followed them.
\<close>

definition answerInv :: "calc \<Rightarrow> bool" where
  "answerInv s = (lastAnswer s \<noteq> None \<longrightarrow> expression s = [])"

definition committed_2_plus_2 :: "engine \<Rightarrow> jsstring \<Rightarrow> calc" where
  "committed_2_plus_2 run now =
     calculate run now (inputNum run (js ''2'') (inputOp (js ''+'') (inputNum run (js ''2'') initial)))"

definition lone_minus :: "engine \<Rightarrow> jsstring \<Rightarrow> calc" where
  "lone_minus run now =
     backspace run (toggleSign run (inputParenthesis run (committed_2_plus_2 run now)))"

section \<open>The currency converter\<close>





section \<open>What the display functions leave alone\<close>

lemma liveEvaluate_expression [simp]: "expression (liveEvaluate run s) = expression s"
  by (simp add: liveEvaluate_def split: sum.splits)

lemma liveEvaluate_lastAnswer [simp]: "lastAnswer (liveEvaluate run s) = lastAnswer s"
  by (simp add: liveEvaluate_def split: sum.splits)

lemma liveEvaluate_history [simp]: "history (liveEvaluate run s) = history s"
  by (simp add: liveEvaluate_def split: sum.splits)

lemma updateDisplay_fields [simp]:
  "expression (updateDisplay s) = expression s"
  "lastAnswer (updateDisplay s) = lastAnswer s"
  "history (updateDisplay s) = history s"
  by (simp_all add: updateDisplay_def)

lemma isOperator_iff:
  "isOperator c \<longleftrightarrow> c = js ''+'' \<or> c = js ''-'' \<or> c = js ''*'' \<or> c = js ''/''"
  by (auto simp: isOperator_def)

section \<open>The parenthesis key\<close>

text \<open>
  Claim C4. \<open>inputParenthesis\<close> appends \<open>(\<close> when the expression is empty, ends in \<open>(\<close> or
  ends in an operator; otherwise \<open>)\<close> when there are more \<open>(\<close> than \<open>)\<close>; otherwise \<open>*(\<close>.
  From the empty expression it gives \<open>(\<close>, from \<open>(\<close> it gives \<open>((\<close>, from \<open>(5\<close> it gives
  \<open>(5)\<close> and from \<open>(5)\<close> it gives \<open>(5)*(\<close>.
\<close>

theorem inputParenthesis_appends:
  "expression (inputParenthesis run s) =
     (if expression s = [] \<or> last (expression s) = of_char CHR ''(''
         \<or> last (expression s) \<in> set (js ''+-*/'')
      then expression s @ js ''(''
      else if countChar (of_char CHR '')'') (expression s)
                < countChar (of_char CHR ''('') (expression s)
      then expression s @ js '')''
      else expression s @ js ''*('')
   \<and> expression (inputParenthesis run (s\<lparr>expression := []\<rparr>)) = js ''(''
   \<and> expression (inputParenthesis run (s\<lparr>expression := js ''(''\<rparr>)) = js ''((''
   \<and> expression (inputParenthesis run (s\<lparr>expression := js ''(5''\<rparr>)) = js ''(5)''
   \<and> expression (inputParenthesis run (s\<lparr>expression := js ''(5)''\<rparr>)) = js ''(5)*(''"
proof (intro conjI)
  show "expression (inputParenthesis run s) =
     (if expression s = [] \<or> last (expression s) = of_char CHR ''(''
         \<or> last (expression s) \<in> set (js ''+-*/'')
      then expression s @ js ''(''
      else if countChar (of_char CHR '')'') (expression s)
                < countChar (of_char CHR ''('') (expression s)
      then expression s @ js '')''
      else expression s @ js ''*('')"
    by (cases "expression s" rule: rev_cases)
       (auto simp: inputParenthesis_def isOperator_iff js_def sliceLast_def)
qed (simp_all add: inputParenthesis_def isOperator_iff js_def sliceLast_def countChar_def)

section \<open>Backspace over a function prefix\<close>

lemma funcNames_nonempty: "n \<in> set funcNames \<Longrightarrow> n \<noteq> []"
  by (auto simp: funcNames_def js_def)

text \<open>No function name ends in another one, so the match of the pattern is unique.\<close>

lemma funcNames_no_suffix:
  "m \<in> set funcNames \<Longrightarrow> n \<in> set funcNames \<Longrightarrow> m = y @ n \<Longrightarrow> y = []"
  by (auto simp: funcNames_def js_def append_eq_Cons_conv Cons_eq_append_conv)

lemma find_funcNames_self:
  "n \<in> set funcNames \<Longrightarrow> find (\<lambda>m. n @ js ''('' = m @ js ''('') funcNames = Some n"
  by (auto simp: funcNames_def js_def)

lemma funcMatch_prefix:
  assumes n: "n \<in> set funcNames"
  shows "funcMatch (x @ n @ js ''('') = Some n"
proof (induction x)
  case Nil
  obtain c cs where "n @ js ''('' = c # cs"
    using funcNames_nonempty [OF n] by (cases n) auto
  then show ?case
    using find_funcNames_self [OF n] by simp
next
  case (Cons a x)
  have "find (\<lambda>m. a # x @ n @ js ''('' = m @ js ''('') funcNames = None"
  proof (rule ccontr)
    assume "find (\<lambda>m. a # x @ n @ js ''('' = m @ js ''('') funcNames \<noteq> None"
    then obtain m where m: "m \<in> set funcNames" "a # x @ n @ js ''('' = m @ js ''(''"
      by (auto simp: find_None_iff)
    then have "m = (a # x) @ n" by simp
    from funcNames_no_suffix [OF m(1) n this] show False by simp
  qed
  with Cons show ?case by simp
qed

text \<open>
  Claim C5. When the expression ends in one of the function prefixes \<open>sin(\<close>, \<open>cos(\<close>,
  \<open>tan(\<close>, \<open>log(\<close>, \<open>ln(\<close>, \<open>sqrt(\<close>, \<open>abs(\<close>, \<open>backspace\<close> removes the whole prefix, the name
  with its parenthesis: what stays is the text before the prefix, not that text with
  the bare name. On \<open>sin(\<close> it gives the empty expression.
\<close>

theorem backspace_removes_prefix:
  assumes "n \<in> set funcNames"
  shows "expression (backspace run (s\<lparr>expression := x @ n @ js ''(''\<rparr>)) = x
       \<and> expression (backspace run (s\<lparr>expression := x @ n @ js ''(''\<rparr>)) \<noteq> x @ n
       \<and> expression (backspace run (s\<lparr>expression := js ''sin(''\<rparr>)) = []"
proof -
  have "funcMatch (js ''sin('') = Some (js ''sin'')"
    using funcMatch_prefix [of "js ''sin''" "[]"] by (simp add: funcNames_def js_def)
  then have "expression (backspace run (s\<lparr>expression := js ''sin(''\<rparr>)) = []"
    by (simp add: backspace_def js_def)
  moreover have "expression (backspace run (s\<lparr>expression := x @ n @ js ''(''\<rparr>)) = x"
    using funcMatch_prefix [OF assms, of x] by (simp add: backspace_def js_def)
  moreover have "x \<noteq> x @ n"
    using funcNames_nonempty [OF assms] by simp
  ultimately show ?thesis by simp
qed

theorem backspace_removes_prefix_witness:
  "js ''sqrt'' \<in> set funcNames
   \<and> expression (backspace js_run (initial\<lparr>expression := js ''2+sqrt(''\<rparr>)) = js ''2+''"
  using backspace_removes_prefix
    [where n = "js ''sqrt''" and run = js_run and s = initial and x = "js ''2+''"]
  by (simp add: funcNames_def js_def)

section \<open>The history ledger\<close>

lemma history_ops [simp]:
  "history (showError msg s) = history s"
  "history (toggleSign run s) = history s"
  "history (inputNum run v s) = history s"
  "history (inputOp op s) = history s"
  "history (inputParenthesis run s) = history s"
  "history (backspace run s) = history s"
  "history (clearAll s) = history s"
  "history (sciFunc run func s) = history s"
  "history (recallHistory i s) = history s"
  "history (toggleHistory s) = history s"
  "history (clearHistory s) = []"
  by (simp_all add: showError_def toggleSign_def inputNum_def inputOp_def inputParenthesis_def
        backspace_def clearAll_def sciFunc_def recallHistory_def toggleHistory_def
        clearHistory_def Let_def split: option.splits)

lemma addHistory_history:
  "history (addHistory now e r s)
     = take 50 (\<lparr>expr = e, result = r, time = now\<rparr> # history s)" if "length (history s) \<le> 50"
proof (cases "length (history s) = 50")
  case True
  then show ?thesis
    by (simp add: addHistory_def Let_def butlast_conv_take)
next
  case False
  with that have "length (history s) < 50" by simp
  then show ?thesis
    by (simp add: addHistory_def Let_def)
qed

lemma history_calculate:
  "history (calculate run now s) = history s
   \<or> (\<exists>e r. history (calculate run now s) = history (addHistory now e r s))"
  by (auto simp: calculate_def split: sum.splits)

lemma reachable_history_bound: "reachable run s \<Longrightarrow> length (history s) \<le> 50"
proof (induction rule: reachable.induct)
  case r_initial
  show ?case by (simp add: initial_def)
next
  case (r_calculate s now)
  from history_calculate [of run now s] show ?case
  proof
    assume "history (calculate run now s) = history s"
    with r_calculate.IH show ?thesis by simp
  next
    assume "\<exists>e r. history (calculate run now s) = history (addHistory now e r s)"
    then obtain e r where "history (calculate run now s) = history (addHistory now e r s)"
      by blast
    with addHistory_history [OF r_calculate.IH] show ?thesis by simp
  qed
qed simp_all

lemma record_all_history:
  "length (history s) \<le> 50 \<Longrightarrow> history (record_all s es) = take 50 (rev es @ history s)"
proof (induction es arbitrary: s)
  case Nil
  then show ?case by simp
next
  case (Cons h hs)
  have "history (addHistory (time h) (expr h) (result h) s) = take 50 (h # history s)"
    using addHistory_history [OF Cons.prems, of "time h" "expr h" "result h"] by simp
  moreover have "length (history (addHistory (time h) (expr h) (result h) s)) \<le> 50"
    using calculation by simp
  ultimately show ?case
    using Cons.IH [of "addHistory (time h) (expr h) (result h) s"]
    by (simp add: take_Cons' min_def take_append)
qed

text \<open>
  Claim C7. The history never holds more than 50 entries, in any state the handlers
  reach, and the oldest entry goes first: after 51 entries are recorded into an empty
  history, exactly 50 remain, the 51st is at index 0 and the first one recorded is gone
  (what remains is the 2nd to the 51st, the newest first).
\<close>

theorem history_capped_oldest_first:
  "(reachable run s \<longrightarrow> length (history s) \<le> 50)
   \<and> (length es = 51 \<longrightarrow>
        length (history (record_all (clearHistory s) es)) = 50
        \<and> history (record_all (clearHistory s) es) ! 0 = es ! 50
        \<and> history (record_all (clearHistory s) es) = rev (drop 1 es))"
proof (intro conjI impI)
  assume "reachable run s"
  then show "length (history s) \<le> 50" by (rule reachable_history_bound)
next
  assume len: "length es = 51"
  have h: "history (record_all (clearHistory s) es) = take 50 (rev es)"
    using record_all_history [of "clearHistory s" es] by simp
  from len show "length (history (record_all (clearHistory s) es)) = 50"
    by (simp add: h)
  from len have "take 50 (rev es) = rev (drop 1 es)"
    by (simp add: take_rev)
  with h show "history (record_all (clearHistory s) es) = rev (drop 1 es)" by simp
  from len have "take 50 (rev es) ! 0 = es ! 50"
    by (simp add: rev_nth)
  with h show "history (record_all (clearHistory s) es) ! 0 = es ! 50" by simp
qed

theorem history_capped_oldest_first_witness:
  "reachable js_run initial \<and> length (history initial) \<le> 50
   \<and> length (map numbered [0..<51]) = 51
   \<and> history (record_all (clearHistory initial) (map numbered [0..<51])) ! 0 = numbered 50
   \<and> history (record_all (clearHistory initial) (map numbered [0..<51]))
        = rev (map numbered [1..<51])"
proof -
  have r: "reachable js_run initial" by (rule reachable.r_initial)
  have l: "length (map numbered [0..<51]) = 51" by simp
  have d: "drop 1 (map numbered [0..<51]) = map numbered [1..<51]"
    by (simp add: drop_map)
  have n: "map numbered [0..<51] ! 50 = numbered 50"
    by (simp del: upt_Suc)
  have c: "history (record_all (clearHistory initial) (map numbered [0..<51])) ! 0
             = map numbered [0..<51] ! 50
           \<and> history (record_all (clearHistory initial) (map numbered [0..<51]))
             = rev (drop 1 (map numbered [0..<51]))"
    using history_capped_oldest_first [of js_run initial "map numbered [0..<51]"] l by blast
  have i: "length (history initial) \<le> 50"
    using history_capped_oldest_first [of js_run initial "map numbered [0..<51]"] r by blast
  from r i l c [unfolded d n] show ?thesis by blast
qed

section \<open>Doubles that are integers\<close>

text \<open>Below \<open>2^53\<close> every integer is a double, and rounding leaves it alone.\<close>

lemma blog_bounds: "0 < n \<Longrightarrow> 2 ^ blog n \<le> n \<and> n < 2 ^ Suc (blog n)"
proof (induction n rule: blog.induct)
  case (1 n)
  show ?case
  proof (cases "n < 2")
    case True
    with 1(2) have "n = 1" by simp
    then show ?thesis by (simp add: blog.simps)
  next
    case False
    then have pos: "0 < n div 2" by simp
    from False have b: "blog n = Suc (blog (n div 2))"
      by (subst blog.simps) simp
    from 1(1) [OF False pos]
    have ih: "2 ^ blog (n div 2) \<le> n div 2" "n div 2 < 2 ^ Suc (blog (n div 2))"
      by simp_all
    have "2 * 2 ^ blog (n div 2) \<le> 2 * (n div 2)" using ih(1) by simp
    also have "\<dots> \<le> n" by simp
    finally have lo: "2 ^ blog n \<le> n" by (simp add: b)
    have "n < 2 * (n div 2) + 2" by arith
    also have "\<dots> \<le> 2 * 2 ^ Suc (blog (n div 2))" using ih(2) by simp
    finally have "n < 2 ^ Suc (blog n)" by (simp add: b)
    with lo show ?thesis by simp
  qed
qed

lemma pow2_nat [simp]: "pow2 (int k) = 2 ^ k"
  by (simp add: pow2_def)

lemma pow2_nonpos: "k \<le> 0 \<Longrightarrow> pow2 k = 1 / 2 ^ nat (- k)"
  by (cases "k = 0") (simp_all add: pow2_def)

lemma ilog2_of_nat: "0 < n \<Longrightarrow> ilog2 (of_nat n) = int (blog n)"
proof -
  assume n: "0 < n"
  have q: "quotient_of (of_nat n) = (int n, 1)"
    by simp
  have b1: "blog (Suc 0) = 0" by (simp add: blog.simps)
  have "(2::rat) ^ blog n \<le> of_nat n"
    using blog_bounds [OF n] by (metis of_nat_le_iff of_nat_numeral of_nat_power)
  then show ?thesis
    by (simp add: ilog2_def q b1)
qed

lemma roundHalfEven_of_int [simp]: "roundHalfEven (of_int k) = k"
  by (simp add: roundHalfEven_def)

lemma roundHalfEven_ge_floor: "\<lfloor>r\<rfloor> \<le> roundHalfEven r"
  by (simp add: roundHalfEven_def Let_def)

lemma roundPos_of_nat:
  assumes n: "0 < n" and small: "n < 2 ^ 53"
  shows "roundPos (of_nat n) = Some (of_nat n)"
proof -
  have "2 ^ blog n < (2::nat) ^ 53"
    using blog_bounds [OF n] small by simp
  then have b: "blog n < 53" by (rule power_less_imp_less_exp [rotated]) simp
  define m where "m = 52 - blog n"
  have e: "max (ilog2 (of_nat n)) (- 1022) = int (blog n)"
    by (simp add: ilog2_of_nat [OF n])
  have u: "pow2 (int (blog n) - 52) = 1 / 2 ^ m"
    using b by (simp add: pow2_nonpos m_def nat_diff_distrib')
  have "(of_nat n :: rat) / (1 / 2 ^ m) = of_int (int n * 2 ^ m)"
    by simp
  then have r: "roundHalfEven (of_nat n / (1 / 2 ^ m)) = int n * 2 ^ m"
    by (simp only: roundHalfEven_of_int)
  have "(of_nat n :: rat) < 2 ^ 53"
    using small by (metis of_nat_less_iff of_nat_numeral of_nat_power)
  also have "\<dots> < 2 ^ 1024" by simp
  finally have lt: "(of_nat n :: rat) < 2 ^ 1024" .
  have p: "pow2 1024 = 2 ^ 1024" by (simp add: pow2_def)
  show ?thesis
    unfolding roundPos_def Let_def e u r p using lt by simp
qed

lemma toNumber_of_nat: "n < 2 ^ 53 \<Longrightarrow> toNumber (of_nat n) = Fin (of_nat n)"
  by (cases "n = 0") (simp_all add: toNumber_def roundPos_of_nat)

lemma toNumber_of_int:
  assumes "\<bar>k\<bar> < 2 ^ 53"
  shows "toNumber (of_int k) = Fin (of_int k)"
proof (cases "0 \<le> k")
  case True
  with assms have "nat k < 2 ^ 53" by simp
  then have "toNumber (of_nat (nat k)) = Fin (of_nat (nat k))"
    by (rule toNumber_of_nat)
  with True show ?thesis by simp
next
  case False
  with assms have "nat (- k) < 2 ^ 53" by simp
  moreover from False have "0 < nat (- k)" by simp
  ultimately have "roundPos (of_nat (nat (- k))) = Some (of_nat (nat (- k)))"
    by (rule roundPos_of_nat [rotated])
  moreover from False have "(of_nat (nat (- k)) :: rat) = - of_int k" by simp
  ultimately have "roundPos (- of_int k) = Some (- of_int k)" by simp
  with False show ?thesis by (simp add: toNumber_def)
qed

lemma toNumber_numeral [simp]:
  "numeral w < (2::int) ^ 53 \<Longrightarrow> toNumber (numeral w) = Fin (numeral w)"
  "numeral w < (2::int) ^ 53 \<Longrightarrow> toNumber (- numeral w) = Fin (- numeral w)"
  using toNumber_of_int [of "numeral w"] toNumber_of_int [of "- numeral w"] by simp_all

lemmas js_arith = js_add_def js_sub_def js_mul_def js_div_def js_neg_def js_lt_def js_eq_def
  js_ge_def isNaN_def isInf_def isZero_def isNeg_def val_def isFinite_def

lemma toNumber_of_nat_large:
  assumes big: "2 ^ 53 \<le> n"
  shows "toNumber (of_nat n) = PosInf \<or> (\<exists>v. toNumber (of_nat n) = Fin v \<and> 2 ^ 53 \<le> v)"
proof -
  have n: "0 < n"
  proof (rule ccontr)
    assume "\<not> 0 < n"
    then have "n = 0" by simp
    with big show False by simp
  qed
  define b where "b = blog n"
  have bb: "2 ^ b \<le> n" "n < 2 ^ Suc b"
    using blog_bounds [OF n] by (simp_all add: b_def)
  have "(2::nat) ^ 53 < 2 ^ Suc b"
    using big bb(2) by (rule le_less_trans)
  then have "53 < Suc b" by (rule power_less_imp_less_exp [rotated]) simp
  then have b53: "53 \<le> b" by simp
  define m where "m = b - 52"
  have bm: "b = 52 + m" using b53 by (simp add: m_def)
  have e: "max (ilog2 (of_nat n)) (- 1022) = int b"
    by (simp add: ilog2_of_nat [OF n] b_def)
  have u: "pow2 (int b - 52) = 2 ^ m"
    by (simp add: bm pow2_def)
  define r where "r = (of_nat n :: rat) / 2 ^ m"
  have "(2::rat) ^ b \<le> of_nat n"
    using bb(1) by (metis of_nat_le_iff of_nat_numeral of_nat_power)
  then have "(2::rat) ^ 52 * 2 ^ m \<le> of_nat n"
    by (simp add: bm power_add)
  then have "(2::rat) ^ 52 \<le> r"
    by (simp add: r_def pos_le_divide_eq)
  then have "(2::int) ^ 52 \<le> \<lfloor>r\<rfloor>"
    by (simp add: le_floor_iff)
  then have "(2::int) ^ 52 \<le> roundHalfEven r"
    using roundHalfEven_ge_floor [of r] by (rule order_trans)
  then have "(of_int (2 ^ 52) :: rat) \<le> of_int (roundHalfEven r)"
    by (simp only: of_int_le_iff)
  then have "(2::rat) ^ 52 \<le> of_int (roundHalfEven r)"
    by simp
  then have "(2::rat) ^ 52 * 2 ^ m \<le> of_int (roundHalfEven r) * 2 ^ m"
    by (simp add: mult_right_mono)
  moreover have "(2::rat) ^ 53 \<le> 2 ^ 52 * 2 ^ m"
  proof -
    have "(2::rat) ^ 53 \<le> 2 ^ b"
      using b53 by (rule power_increasing) simp
    then show ?thesis by (simp add: bm power_add)
  qed
  ultimately have v: "(2::rat) ^ 53 \<le> of_int (roundHalfEven r) * 2 ^ m"
    by (rule order_trans [rotated])
  have "roundPos (of_nat n) = None
        \<or> roundPos (of_nat n) = Some (of_int (roundHalfEven r) * 2 ^ m)"
    unfolding roundPos_def Let_def e u r_def by simp
  then show ?thesis
  proof
    assume "roundPos (of_nat n) = None"
    with n show ?thesis by (simp add: toNumber_def)
  next
    assume "roundPos (of_nat n) = Some (of_int (roundHalfEven r) * 2 ^ m)"
    with n v show ?thesis by (simp add: toNumber_def del: power_numeral)
  qed
qed

lemma floor_half [simp]: "\<lfloor>(1 / 2) :: rat\<rfloor> = 0"
  by (rule floor_unique) simp_all

lemma Math_round_int [simp]: "Math_round (Fin (of_int k)) = Fin (of_int k)"
  by (simp add: Math_round_def Let_def)

lemma factorialFn_int:
  "factorialFn (Fin (of_int k)) =
     (if k < 0 then NaN else if k \<le> 1 then Fin 1 else if 170 < k then PosInf
      else fact_loop 2 k (Fin 1))"
  by (simp add: factorialFn_def js_arith Let_def)

lemma factorialFn_PosInf [simp]: "factorialFn PosInf = PosInf"
  by (simp add: factorialFn_def js_arith Math_round_def)

lemma factorialFn_large:
  assumes "2 ^ 53 \<le> v"
  shows "factorialFn (Fin v) = PosInf"
proof -
  define r where "r = \<lfloor>v + 1 / 2\<rfloor>"
  have "(171::rat) \<le> 2 ^ 53" by simp
  from this assms have "171 \<le> v" by (rule order_trans)
  then have "of_int 171 \<le> v + 1 / 2" by simp
  then have f: "171 \<le> r" unfolding r_def by (simp only: le_floor_iff)
  then have "(of_int 171 :: rat) \<le> of_int r"
    by (simp only: of_int_le_iff)
  then have g: "(171 :: rat) \<le> of_int r" by simp
  have mr: "Math_round (Fin v) = Fin (of_int r)"
    using f by (simp add: Math_round_def Let_def r_def [symmetric])
  from g have "\<not> (of_int r :: rat) < 0" "(of_int r :: rat) \<noteq> 0" "(of_int r :: rat) \<noteq> 1"
    "(170 :: rat) < of_int r"
    by linarith+
  then show ?thesis
    by (simp add: factorialFn_def mr js_arith)
qed

lemma factorialFn_literal:
  "factorialFn (toNumber (of_nat n)) =
     (if n \<le> 1 then Fin 1 else if 170 < n then PosInf else fact_loop 2 (int n) (Fin 1))"
proof (cases "n < 2 ^ 53")
  case True
  then have "toNumber (of_nat n) = Fin (of_int (int n))"
    by (simp add: toNumber_of_nat)
  then show ?thesis
    by (simp only: factorialFn_int) auto
next
  case False
  then have big: "2 ^ 53 \<le> n" by simp
  have "(171::nat) \<le> 2 ^ 53" by simp
  with big have "170 < n" by linarith
  moreover have "factorialFn (toNumber (of_nat n)) = PosInf"
    using toNumber_of_nat_large [OF big] by (auto simp: factorialFn_large)
  ultimately show ?thesis by simp
qed

section \<open>Decimal digits\<close>

lemma isDigit_iff: "isDigit c \<longleftrightarrow> c \<in> set (js ''0123456789'')"
proof
  assume "isDigit c"
  then have "48 \<le> unat c" "unat c \<le> 57"
    by (simp_all add: isDigit_def word_le_nat_alt)
  then have "unat c \<in> {48, 49, 50, 51, 52, 53, 54, 55, 56, 57}"
    unfolding insert_iff empty_iff by arith
  moreover have "c = of_nat (unat c)" by simp
  ultimately have "c \<in> of_nat ` {48, 49, 50, 51, 52, 53, 54, 55, 56, 57}"
    by (metis imageI)
  then show "c \<in> set (js ''0123456789'')"
    by (simp add: js_def)
next
  assume "c \<in> set (js ''0123456789'')"
  then show "isDigit c"
    by (auto simp: js_def isDigit_def)
qed

lemma digitChar_digit: "d < 10 \<Longrightarrow> digitChar d \<in> set (js ''0123456789'')"
proof -
  assume "d < 10"
  then have "d \<in> {0, 1, 2, 3, 4, 5, 6, 7, 8, 9}"
    unfolding insert_iff empty_iff by arith
  then show ?thesis by (auto simp: digitChar_def js_def)
qed

lemma digitVal_digitChar: "d < 10 \<Longrightarrow> digitVal (digitChar d) = d"
proof -
  assume "d < 10"
  then have "d \<in> {0, 1, 2, 3, 4, 5, 6, 7, 8, 9}"
    unfolding insert_iff empty_iff by arith
  then show ?thesis by (auto simp: digitChar_def digitVal_def)
qed

lemma digitChar_zero_iff: "d < 10 \<Longrightarrow> digitChar d = 0x30 \<longleftrightarrow> d = 0"
proof -
  assume "d < 10"
  then have "d \<in> {0, 1, 2, 3, 4, 5, 6, 7, 8, 9}"
    unfolding insert_iff empty_iff by arith
  then show ?thesis by (auto simp: digitChar_def)
qed

lemma digitsOf_nonempty [simp]: "digitsOf n \<noteq> []"
  by (subst digitsOf.simps) simp

lemma digitsOf_digits: "c \<in> set (digitsOf n) \<Longrightarrow> isDigit c"
proof (induction n rule: digitsOf.induct)
  case (1 n)
  show ?case
  proof (cases "n < 10")
    case True
    with 1(2) have "c = digitChar n"
      by (subst (asm) digitsOf.simps) simp
    with True show ?thesis by (simp add: isDigit_iff digitChar_digit)
  next
    case False
    with 1(2) have "c \<in> set (digitsOf (n div 10)) \<or> c = digitChar (n mod 10)"
      by (subst (asm) digitsOf.simps) auto
    then show ?thesis
      using 1(1) [OF False] by (auto simp: isDigit_iff digitChar_digit)
  qed
qed

lemma natOfDigits_snoc: "natOfDigits (ds @ [c]) = 10 * natOfDigits ds + digitVal c"
  by (simp add: natOfDigits_def)

lemma natOfDigits_digitsOf [simp]: "natOfDigits (digitsOf n) = n"
proof (induction n rule: digitsOf.induct)
  case (1 n)
  show ?case
  proof (cases "n < 10")
    case True
    then show ?thesis
      by (subst digitsOf.simps) (simp add: natOfDigits_def digitVal_digitChar)
  next
    case False
    then show ?thesis
      using 1 [OF False]
      by (subst digitsOf.simps) (simp add: natOfDigits_snoc digitVal_digitChar)
  qed
qed

lemma digitsOf_length_one: "n < 10 \<Longrightarrow> length (digitsOf n) = 1"
  by (subst digitsOf.simps) simp

lemma digitsOf_hd: "hd (digitsOf n) = 0x30 \<longleftrightarrow> n = 0"
proof (induction n rule: digitsOf.induct)
  case (1 n)
  show ?case
  proof (cases "n < 10")
    case True
    then show ?thesis
      by (subst digitsOf.simps) (simp add: digitChar_zero_iff)
  next
    case False
    then have "n div 10 \<noteq> 0" by simp
    with False show ?thesis
      using 1 [OF False]
      by (subst digitsOf.simps) simp
  qed
qed

text \<open>The decimal digits of a number have no superfluous leading zero.\<close>

lemma digitsOf_no_leading_zero:
  "\<not> (2 \<le> length (digitsOf n) \<and> hd (digitsOf n) = 0x30)"
  by (cases "n < 10") (simp_all add: digitsOf_length_one digitsOf_hd)

section \<open>The rewriting of a factorial\<close>

lemma takeWhile_digits:
  "\<forall>c\<in>set ds. isDigit c \<Longrightarrow> \<not> isDigit x \<Longrightarrow> takeWhile isDigit (ds @ x # r) = ds"
  by (simp add: takeWhile_tail)

lemma dropWhile_digits:
  "\<forall>c\<in>set ds. isDigit c \<Longrightarrow> \<not> isDigit x \<Longrightarrow> dropWhile isDigit (ds @ x # r) = x # r"
  by (simp add: dropWhile_append3)

lemma replacePi_id: "ch_pi \<notin> set s \<Longrightarrow> replacePi s = s"
  by (induction s) (auto simp: replacePi_def)

lemma replaceE_id: "0x65 \<notin> set s \<Longrightarrow> replaceE p s = s"
  by (induction s arbitrary: p) auto

lemma replaceCaret_id: "0x5E \<notin> set s \<Longrightarrow> replaceCaret s = s"
  by (induction s) (auto simp: replaceCaret_def)

lemma replaceAll_id: "pat \<noteq> [] \<Longrightarrow> hd pat \<notin> set s \<Longrightarrow> replaceAll pat rep s = s"
proof (induction s)
  case Nil
  show ?case by (subst replaceAll.simps) simp
next
  case (Cons c cs)
  from Cons.prems obtain p ps where pat: "pat = p # ps" and p: "p \<noteq> c" "p \<notin> set cs"
    by (cases pat) auto
  have "take (length pat) (c # cs) \<noteq> pat"
    using p by (simp add: pat)
  moreover have "replaceAll pat rep cs = cs"
    using Cons.IH Cons.prems by simp
  ultimately show ?case
    by (subst replaceAll.simps) simp
qed

lemma removeMath_id: "0x4D \<notin> set s \<Longrightarrow> removeMath s = s"
proof (induction s)
  case Nil
  show ?case by (subst removeMath.simps) simp
next
  case (Cons c cs)
  then have "take 5 (c # cs) \<noteq> js ''Math.''"
    by (auto simp: js_def)
  moreover have "removeMath cs = cs"
    using Cons by simp
  ultimately show ?case
    by (subst removeMath.simps) simp
qed

lemma digit_not_special:
  assumes "isDigit c"
  shows "c \<noteq> ch_pi" "c \<noteq> 0x65" "c \<noteq> 0x5E" "c \<noteq> 0x4D" "c \<noteq> 0x21" "c \<noteq> 0x28" "c \<noteq> 0x29"
    "c \<noteq> 0x2E" "c \<noteq> 0x73" "c \<noteq> 0x63" "c \<noteq> 0x74" "c \<noteq> 0x6C" "c \<noteq> 0x61" "c \<noteq> 0x66"
    "\<not> isLetter c" "c \<noteq> 0x24" "c \<noteq> 0x5F"
  using assms by (auto simp: isDigit_iff js_def ch_pi_def isLetter_def)

lemma notin_digits: "\<forall>c\<in>set ds. isDigit c \<Longrightarrow> \<not> isDigit x \<Longrightarrow> x \<notin> set ds"
  by blast

lemma rewriteFactorial_digits:
  assumes ds: "\<forall>c\<in>set ds. isDigit c" and ne: "ds \<noteq> []"
  shows "rewriteFactorial (ds @ js ''!'') = js ''factorial('' @ ds @ js '')''"
proof -
  have nd: "\<not> isDigit 0x21" by (simp add: isDigit_def)
  have t: "takeWhile isDigit (ds @ [0x21]) = ds"
    using takeWhile_digits [OF ds nd, of "[]"] by simp
  have d: "dropWhile isDigit (ds @ [0x21]) = [0x21]"
    using dropWhile_digits [OF ds nd, of "[]"] by simp
  have h: "isDigit (hd ds)"
    using ds ne by (cases ds) auto
  have e: "rewriteFactorial [] = []"
    by (subst rewriteFactorial.simps) simp
  show ?thesis
    by (subst rewriteFactorial.simps) (simp add: js_def t d h ne nextIs_def e)
qed

lemma transform_factorial:
  assumes ds: "\<forall>c\<in>set ds. isDigit c" and ne: "ds \<noteq> []"
  shows "transform (ds @ js ''!'') = js ''factorial('' @ ds @ js '')''"
proof -
  define s where "s = ds @ js ''!''"
  have n: "ch_pi \<notin> set s" "0x65 \<notin> set s" "0x5E \<notin> set s" "0x73 \<notin> set s"
    "0x63 \<notin> set s" "0x74 \<notin> set s" "0x6C \<notin> set s" "0x61 \<notin> set s"
    using notin_digits [OF ds] by (simp_all add: s_def js_def ch_pi_def isDigit_def)
  have r: "replaceAll (js ''sin('') a s = s" "replaceAll (js ''cos('') a s = s"
    "replaceAll (js ''tan('') a s = s" "replaceAll (js ''log('') a s = s"
    "replaceAll (js ''ln('') a s = s" "replaceAll (js ''sqrt('') a s = s"
    "replaceAll (js ''abs('') a s = s" for a
    by (rule replaceAll_id; simp add: js_def n)+
  have "transform s = rewriteFactorial s"
    unfolding transform_def
    by (simp only: replacePi_id [OF n(1)] replaceE_id [OF n(2)] r replaceCaret_id [OF n(3)])
  then show ?thesis
    using rewriteFactorial_digits [OF ds ne] by (simp add: s_def)
qed

section \<open>The evaluation of a factorial\<close>

lemma countChar_append [simp]: "countChar c (a @ b) = countChar c a + countChar c b"
  by (simp add: countChar_def)

lemma countChar_digits:
  "\<forall>c\<in>set ds. isDigit c \<Longrightarrow> \<not> isDigit x \<Longrightarrow> countChar x ds = 0"
  by (auto simp: countChar_def filter_empty_conv)

lemma allowedChar_digit: "isDigit c \<Longrightarrow> allowedChar c"
  by (auto simp: isDigit_iff allowedChar_def js_def)

lemma closeParens_call:
  assumes ds: "\<forall>c\<in>set ds. isDigit c"
  shows "closeParens (js ''factorial('' @ ds @ js '')'') = js ''factorial('' @ ds @ js '')''"
  using countChar_digits [OF ds]
  by (simp add: closeParens_def isDigit_def) (simp add: countChar_def js_def)

lemma sanitize_call:
  assumes ds: "\<forall>c\<in>set ds. isDigit c"
  shows "list_all allowedChar
           (replaceAll (js ''factorial'') [] (removeMath (js ''factorial('' @ ds @ js '')'')))"
proof -
  have m: "0x4D \<notin> set (js ''factorial('' @ ds @ js '')'')"
    using notin_digits [OF ds] by (simp add: js_def isDigit_def)
  have f: "0x66 \<notin> set (0x28 # ds @ [0x29])"
    using notin_digits [OF ds] by (simp add: isDigit_def)
  have "replaceAll (js ''factorial'') [] (0x28 # ds @ [0x29]) = 0x28 # ds @ [0x29]"
    by (rule replaceAll_id) (use f in \<open>simp_all add: js_def\<close>)
  then have "replaceAll (js ''factorial'') [] (js ''factorial('' @ ds @ js '')'')
               = 0x28 # ds @ [0x29]"
    by (subst replaceAll.simps) (simp add: js_def)
  moreover have "list_all allowedChar (0x28 # ds @ [0x29])"
    using ds by (simp add: list_all_iff allowedChar_digit) (simp add: allowedChar_def js_def)
  ultimately show ?thesis
    by (simp add: removeMath_id [OF m])
qed

lemma tokenize_call:
  assumes ds: "\<forall>c\<in>set ds. isDigit c" and ne: "ds \<noteq> []"
    and lz: "\<not> (2 \<le> length ds \<and> hd ds = 0x30)"
  shows "tokenize (0x28 # js ''factorial('' @ ds @ js ''))'')
           = Inr [TLParen, TFactorial, TLParen, TNum (toNumber (of_nat (natOfDigits ds))),
                  TRParen, TRParen]"
proof -
  have np: "\<not> isDigit 0x29" by (simp add: isDigit_def)
  have hd: "isDigit (hd ds)" using ds ne by (cases ds) auto
  have t0: "tokenize [] = Inr []"
    by (subst tokenize.simps) simp
  have t1: "tokenize [0x29] = Inr [TRParen]"
    by (subst tokenize.simps) (simp add: isDigit_def isLetter_def t0 consTok_def)
  have t2: "tokenize [0x29, 0x29] = Inr [TRParen, TRParen]"
    by (subst tokenize.simps) (simp add: isDigit_def isLetter_def t1 consTok_def)
  have tk: "takeWhile isDigit (ds @ [0x29, 0x29]) = ds"
    using takeWhile_digits [OF ds np, of "[0x29]"] by simp
  have dr: "dropWhile isDigit (ds @ [0x29, 0x29]) = [0x29, 0x29]"
    using dropWhile_digits [OF ds np, of "[0x29]"] by simp
  have al: "afterLiteral (ds @ [0x29, 0x29]) = [0x29, 0x29]"
    by (simp add: afterLiteral_def dr)
  have nl: "numericLiteral (ds @ [0x29, 0x29]) = Inr (toNumber (of_nat (natOfDigits ds)))"
    using ne lz
    by (simp add: numericLiteral_def Let_def tk dr al isWord_def isLetter_def isDigit_def)
  have t3: "tokenize (ds @ [0x29, 0x29])
              = Inr [TNum (toNumber (of_nat (natOfDigits ds))), TRParen, TRParen]"
    using ne hd by (subst tokenize.simps) (simp add: nl al t2 consTok_def)
  have t4: "tokenize (0x28 # ds @ [0x29, 0x29])
              = Inr [TLParen, TNum (toNumber (of_nat (natOfDigits ds))), TRParen, TRParen]"
    by (subst tokenize.simps) (simp add: isDigit_def isLetter_def t3 consTok_def)
  have t5: "tokenize (js ''factorial'' @ 0x28 # ds @ [0x29, 0x29])
              = Inr [TFactorial, TLParen, TNum (toNumber (of_nat (natOfDigits ds))),
                     TRParen, TRParen]"
    by (subst tokenize.simps)
       (simp add: js_def isDigit_def isLetter_def isIdentChar_def isWord_def t4 consTok_def)
  show ?thesis
    using t5 by (subst tokenize.simps) (simp add: js_def isDigit_def isLetter_def consTok_def)
qed

lemma parse_call:
  "parseExpr 21 [TLParen, TFactorial, TLParen, TNum v, TRParen, TRParen]
     = Inr (CallFactorial (Lit v), [])"
  by (simp add: eval_nat_numeral prec_def)

lemma js_run_call:
  assumes ds: "\<forall>c\<in>set ds. isDigit c" and ne: "ds \<noteq> []"
    and lz: "\<not> (2 \<le> length ds \<and> hd ds = 0x30)"
  shows "js_run f (bodyPrefix @ js ''factorial('' @ ds @ js '')'' @ js '')'')
           = Inr (f (toNumber (of_nat (natOfDigits ds))))"
proof -
  have "drop (length bodyPrefix) (bodyPrefix @ js ''factorial('' @ ds @ js '')'' @ js '')'')
          = js ''factorial('' @ ds @ js ''))''"
    by (simp add: js_def)
  then show ?thesis
    using tokenize_call [OF ds ne lz]
    by (simp add: js_run_def parse_call bind1_def)
qed

lemma evaluateExpression_factorial:
  assumes ds: "\<forall>c\<in>set ds. isDigit c" and ne: "ds \<noteq> []"
    and lz: "\<not> (2 \<le> length ds \<and> hd ds = 0x30)"
  shows "evaluateExpression js_run (ds @ js ''!'')
           = Inr (factorialFn (toNumber (of_nat (natOfDigits ds))))"
  by (simp add: evaluateExpression_def transform_factorial [OF ds ne] closeParens_call [OF ds]
        sanitize_call [OF ds] js_run_call [OF ds ne lz])

lemma js_append: "js a @ js b = js (a @ b)"
  by (simp add: js_def)

lemma js_mul_Fin:
  "a \<noteq> 0 \<Longrightarrow> b \<noteq> 0 \<Longrightarrow> js_mul (Fin a) (Fin b) = toNumber (a * b)"
  by (simp add: js_arith)

lemma blog_unique:
  assumes lo: "2 ^ b \<le> n" and hi: "n < 2 ^ Suc b"
  shows "blog n = b"
proof -
  have n: "0 < n"
  proof (rule ccontr)
    assume "\<not> 0 < n"
    with lo show False by simp
  qed
  have "(2::nat) ^ b < 2 ^ Suc (blog n)"
    using lo blog_bounds [OF n] by linarith
  then have "b < Suc (blog n)" by (rule power_less_imp_less_exp [rotated]) simp
  moreover have "(2::nat) ^ blog n < 2 ^ Suc b"
    using hi blog_bounds [OF n] by linarith
  then have "blog n < Suc b" by (rule power_less_imp_less_exp [rotated]) simp
  ultimately show ?thesis by simp
qed

lemma toNumber_of_nat_round:
  assumes lo: "2 ^ (52 + m) \<le> n" and hi: "n < 2 ^ (53 + m)" and m: "m < 900"
  shows "toNumber (of_nat n)
           = Fin (of_nat ((if 2 * (n mod 2 ^ m) < 2 ^ m
                              \<or> (2 * (n mod 2 ^ m) = 2 ^ m \<and> even (n div 2 ^ m))
                           then n div 2 ^ m else n div 2 ^ m + 1) * 2 ^ m))"
proof -
  have n: "0 < n"
  proof (rule ccontr)
    assume "\<not> 0 < n"
    with lo show False by simp
  qed
  have b: "blog n = 52 + m"
    using lo hi by (intro blog_unique) simp_all
  have e: "max (ilog2 (of_nat n)) (- 1022) = int (52 + m)"
    by (simp add: ilog2_of_nat [OF n] b)
  have u: "pow2 (int (52 + m) - 52) = 2 ^ m"
    by (simp add: pow2_def)
  define a where "a = n div 2 ^ m"
  define r where "r = n mod 2 ^ m"
  have nar: "n = a * 2 ^ m + r"
    unfolding a_def r_def by (rule div_mult_mod_eq [symmetric])
  have rlt: "r < 2 ^ m" by (simp add: r_def)
  have q: "(of_nat n :: rat) / 2 ^ m = of_nat a + of_nat r / 2 ^ m"
    by (simp add: nar add_divide_distrib)
  have r0: "(0::rat) \<le> of_nat r / 2 ^ m" by simp
  have r1: "(of_nat r :: rat) / 2 ^ m < 1"
    using rlt by (simp add: divide_less_eq)
  have fl: "\<lfloor>(of_nat n :: rat) / 2 ^ m\<rfloor> = int a"
    unfolding q using r0 r1 by (intro floor_unique) simp_all
  have d: "(of_nat n :: rat) / 2 ^ m - of_int (int a) = of_nat r / 2 ^ m"
    by (simp add: q)
  have c1: "((of_nat r :: rat) / 2 ^ m < 1 / 2) = (2 * r < 2 ^ m)"
  proof -
    have "((of_nat r :: rat) / 2 ^ m < 1 / 2) = ((of_nat (2 * r) :: rat) < of_nat (2 ^ m))"
      by (simp add: divide_less_eq mult.commute)
    then show ?thesis by (simp only: of_nat_less_iff)
  qed
  have c2: "(1 / 2 < (of_nat r :: rat) / 2 ^ m) = (2 ^ m < 2 * r)"
  proof -
    have "(1 / 2 < (of_nat r :: rat) / 2 ^ m) = ((of_nat (2 ^ m) :: rat) < of_nat (2 * r))"
      by (simp add: less_divide_eq mult.commute)
    then show ?thesis by (simp only: of_nat_less_iff)
  qed
  define k where "k = (if 2 * r < 2 ^ m \<or> (2 * r = 2 ^ m \<and> even a) then a else a + 1)"
  have rhe: "roundHalfEven ((of_nat n :: rat) / 2 ^ m) = int k"
    unfolding roundHalfEven_def Let_def fl d c1 c2 k_def by auto
  have "a * 2 ^ m \<le> n" by (simp add: nar)
  moreover have "n < 2 ^ 53 * 2 ^ m" using hi by (simp only: power_add)
  ultimately have "a * 2 ^ m < 2 ^ 53 * 2 ^ m" by (rule le_less_trans)
  then have "a < 2 ^ 53" by (simp only: mult_less_cancel2)
  then have "k \<le> 2 ^ 53" by (simp add: k_def)
  then have "k * 2 ^ m \<le> 2 ^ 53 * 2 ^ m" by simp
  also have "\<dots> = (2::nat) ^ (53 + m)" by (simp add: power_add)
  also have "\<dots> < 2 ^ 1024" using m by (intro power_strict_increasing) simp_all
  finally have "(of_nat (k * 2 ^ m) :: rat) < of_nat (2 ^ 1024)"
    by (simp only: of_nat_less_iff)
  then have lt: "(of_nat k :: rat) * 2 ^ m < 2 ^ 1024" by simp
  have p: "pow2 1024 = 2 ^ 1024" by (simp add: pow2_def)
  have "roundPos (of_nat n) = Some (of_nat k * 2 ^ m)"
    unfolding roundPos_def Let_def e u rhe p using lt by simp
  with n show ?thesis
    by (simp add: toNumber_def k_def a_def r_def)
qed


lemma fact_loop_prefix:
  assumes ex: "\<And>k. k \<le> j \<Longrightarrow> toNumber (of_nat (fact k)) = Fin (of_nat (fact k))"
  shows "1 \<le> i \<Longrightarrow> i \<le> j + 1 \<Longrightarrow> j \<le> n \<Longrightarrow>
         fact_loop (int i) (int n) (Fin (of_nat (fact (i - 1))))
           = fact_loop (int j + 1) (int n) (Fin (of_nat (fact j)))"
proof (induction "j + 1 - i" arbitrary: i)
  case 0
  then have "i = j + 1" by simp
  then show ?case by (simp add: add.commute)
next
  case (Suc d)
  then have i: "i \<le> j" "1 \<le> i" "i \<le> n" by simp_all
  then obtain i' where i': "i = Suc i'" by (cases i) auto
  have fi: "(fact i :: nat) = fact (i - 1) * i"
    by (simp add: i')
  have "js_mul (Fin (of_nat (fact (i - 1)))) (Fin (of_int (int i)))
          = toNumber (of_nat (fact (i - 1)) * of_int (int i))"
    using i(2) by (intro js_mul_Fin) simp_all
  also have "\<dots> = toNumber (of_nat (fact i))"
    by (simp add: fi)
  also have "\<dots> = Fin (of_nat (fact i))"
    using i(1) by (rule ex)
  finally have step: "js_mul (Fin (of_nat (fact (i - 1)))) (Fin (of_int (int i)))
                        = Fin (of_nat (fact (Suc i - 1)))"
    by simp
  have "fact_loop (int i) (int n) (Fin (of_nat (fact (i - 1))))
          = fact_loop (int (Suc i)) (int n) (Fin (of_nat (fact (Suc i - 1))))"
    using i(3) step by (subst fact_loop.simps) (simp add: add.commute)
  also have "\<dots> = fact_loop (int j + 1) (int n) (Fin (of_nat (fact j)))"
    using Suc.hyps(2) Suc.prems i by (intro Suc.hyps(1)) simp_all
  finally show ?case .
qed

lemma fact_loop_done: "fact_loop (int n + 1) (int n) r = r"
  by (subst fact_loop.simps) simp

lemma fact_18: "(fact 18 :: nat) < 2 ^ 53"
  by (simp add: fact_numeral)

lemma toNumber_fact:
  assumes "k \<le> 22"
  shows "toNumber (of_nat (fact k)) = Fin (of_nat (fact k))"
proof (cases "k \<le> 18")
  case True
  then have "(fact k :: nat) \<le> fact 18" by (rule fact_mono)
  then have "(fact k :: nat) < 2 ^ 53" using fact_18 by (rule le_less_trans)
  then show ?thesis by (rule toNumber_of_nat)
next
  case False
  with assms have "k = 19 \<or> k = 20 \<or> k = 21 \<or> k = 22" by arith
  moreover have "toNumber (of_nat (fact 19)) = Fin (of_nat (fact 19))"
    using toNumber_of_nat_round [of 4 "fact 19"] by (simp add: fact_numeral)
  moreover have "toNumber (of_nat (fact 20)) = Fin (of_nat (fact 20))"
    using toNumber_of_nat_round [of 9 "fact 20"] by (simp add: fact_numeral)
  moreover have "toNumber (of_nat (fact 21)) = Fin (of_nat (fact 21))"
    using toNumber_of_nat_round [of 13 "fact 21"] by (simp add: fact_numeral)
  moreover have "toNumber (of_nat (fact 22)) = Fin (of_nat (fact 22))"
    using toNumber_of_nat_round [of 17 "fact 22"] by (simp add: fact_numeral)
  ultimately show ?thesis by blast
qed

lemma fact_loop_exact:
  assumes "2 \<le> n" "n \<le> 22"
  shows "fact_loop 2 (int n) (Fin 1) = Fin (of_nat (fact n))"
proof -
  have "fact_loop (int 2) (int n) (Fin (of_nat (fact (2 - 1))))
          = fact_loop (int n + 1) (int n) (Fin (of_nat (fact n)))"
    using assms by (intro fact_loop_prefix toNumber_fact) simp_all
  then show ?thesis by (simp add: fact_loop_done)
qed

lemma step_23: "js_mul (Fin 1124000727777607680000) (Fin 23) = Fin 25852016738884978212864"
  using toNumber_of_nat_round [of 22 25852016738884976640000] by (simp add: js_arith)

lemma step_24: "js_mul (Fin 25852016738884978212864) (Fin 24) = Fin 620448401733239409999872"
  using toNumber_of_nat_round [of 27 620448401733239477108736] by (simp add: js_arith)

lemma step_25: "js_mul (Fin 620448401733239409999872) (Fin 25) = Fin 15511210043330986055303168"
  using toNumber_of_nat_round [of 31 15511210043330985249996800] by (simp add: js_arith)

lemma fact_loop_25: "fact_loop 2 25 (Fin 1) = Fin 15511210043330986055303168"
proof -
  have "fact_loop (int 2) (int 25) (Fin (of_nat (fact (2 - 1))))
          = fact_loop (int 22 + 1) (int 25) (Fin (of_nat (fact 22)))"
    by (intro fact_loop_prefix toNumber_fact) simp_all
  then have "fact_loop 2 25 (Fin 1) = fact_loop 23 25 (Fin 1124000727777607680000)"
    by (simp add: fact_numeral)
  also have "\<dots> = fact_loop 24 25 (Fin 25852016738884978212864)"
    by (subst fact_loop.simps) (simp add: step_23)
  also have "\<dots> = fact_loop 25 25 (Fin 620448401733239409999872)"
    by (subst fact_loop.simps) (simp add: step_24)
  also have "\<dots> = fact_loop 26 25 (Fin 15511210043330986055303168)"
    by (subst fact_loop.simps) (simp add: step_25)
  also have "\<dots> = Fin 15511210043330986055303168"
    by (subst fact_loop.simps) simp
  finally show ?thesis .
qed


lemma fact_loop_upto:
  "fact_loop i n r = foldl (\<lambda>r i. js_mul r (Fin (of_int i))) r [i..n]"
proof (induction i n r rule: fact_loop.induct)
  case (1 i n r)
  show ?case
  proof (cases "i \<le> n")
    case True
    then have "[i..n] = i # [i + 1..n]" by (rule upto_rec1)
    with True 1 show ?thesis
      by (subst fact_loop.simps) simp
  next
    case False
    then show ?thesis
      by (subst fact_loop.simps) simp
  qed
qed

lemma evaluateExpression_host:
  assumes "evaluateExpression js_run e = r" and "r \<noteq> Inl Unsupported"
  shows "evaluateExpression (js_host rest) e = r"
  using assms
  by (auto simp: evaluateExpression_def js_host_def Let_def split: sum.splits if_splits)

lemma tokenize_leading_zero:
  assumes ds: "\<forall>c\<in>set ds. isDigit c" and len: "2 \<le> length ds" and z: "hd ds = 0x30"
  shows "tokenize (0x28 # js ''factorial('' @ ds @ js ''))'') = Inl SyntaxError"
proof -
  have ne: "ds \<noteq> []" using len by auto
  have np: "\<not> isDigit 0x29" by (simp add: isDigit_def)
  have hd: "isDigit (hd ds)" using ds ne by (cases ds) auto
  have tk: "takeWhile isDigit (ds @ [0x29, 0x29]) = ds"
    using takeWhile_digits [OF ds np, of "[0x29]"] by simp
  have dr: "dropWhile isDigit (ds @ [0x29, 0x29]) = [0x29, 0x29]"
    using dropWhile_digits [OF ds np, of "[0x29]"] by simp
  have nl: "numericLiteral (ds @ [0x29, 0x29]) = Inl SyntaxError"
    using ne len z by (simp add: numericLiteral_def Let_def tk dr)
  have t3: "tokenize (ds @ [0x29, 0x29]) = Inl SyntaxError"
    using ne hd by (subst tokenize.simps) (simp add: nl)
  have t4: "tokenize (0x28 # ds @ [0x29, 0x29]) = Inl SyntaxError"
    by (subst tokenize.simps) (simp add: isDigit_def isLetter_def t3 consTok_def)
  have t5: "tokenize (js ''factorial'' @ 0x28 # ds @ [0x29, 0x29]) = Inl SyntaxError"
    by (subst tokenize.simps)
       (simp add: js_def isDigit_def isLetter_def isIdentChar_def isWord_def t4 consTok_def)
  show ?thesis
    using t5 by (subst tokenize.simps) (simp add: js_def isDigit_def isLetter_def consTok_def)
qed

lemma evaluateExpression_leading_zero:
  assumes ds: "\<forall>c\<in>set ds. isDigit c" and len: "2 \<le> length ds" and z: "hd ds = 0x30"
  shows "evaluateExpression js_run (ds @ js ''!'') = Inl SyntaxError"
proof -
  have ne: "ds \<noteq> []" using len by auto
  have "drop (length bodyPrefix) (bodyPrefix @ js ''factorial('' @ ds @ js '')'' @ js '')'')
          = js ''factorial('' @ ds @ js ''))''"
    by (simp add: js_def)
  then have "js_run f (bodyPrefix @ js ''factorial('' @ ds @ js '')'' @ js '')'')
               = Inl SyntaxError" for f
    using tokenize_leading_zero [OF ds len z] by (simp add: js_run_def)
  then show ?thesis
    by (simp add: evaluateExpression_def transform_factorial [OF ds ne] closeParens_call [OF ds]
        sanitize_call [OF ds])
qed

lemma evaluate_literal_factorial:
  "evaluateExpression js_run (digitsOf n @ js ''!'')
     = Inr (if n \<le> 1 then Fin 1 else if 170 < n then PosInf else fact_loop 2 (int n) (Fin 1))"
  using evaluateExpression_factorial [of "digitsOf n"] digitsOf_no_leading_zero [of n]
  by (simp add: digitsOf_digits factorialFn_literal)

lemma calculate_error:
  assumes "expression s \<noteq> []" "evaluateExpression run (expression s) = Inl e"
  shows "resultEl (calculate run now s) = js ''Error''" "resultError (calculate run now s)"
    "lastAnswer (calculate run now s) = None" "expression (calculate run now s) = []"
    "history (calculate run now s) = history s"
  using assms by (simp_all add: calculate_def showError_def)

lemma eval_25: "evaluateExpression js_run (js ''25!'') = Inr (Fin 15511210043330986055303168)"
proof -
  have "digitsOf 25 = js ''25''"
    by (simp add: digitsOf.simps digitChar_def js_def)
  then show ?thesis
    using evaluate_literal_factorial [of 25] by (simp add: js_append fact_loop_25)
qed

lemma eval_05: "evaluateExpression js_run (js ''05!'') = Inl SyntaxError"
  using evaluateExpression_leading_zero [of "js ''05''"]
  by (simp add: js_append) (simp add: js_def isDigit_def)

text \<open>
  Claim C2, as stated, fails. The product is accumulated in double arithmetic, and from
  \<open>23!\<close> on a multiplication rounds: \<open>25!\<close> evaluates to 15511210043330986055303168,
  which is not \<open>25!\<close>. A digit run with a superfluous leading zero is not a literal of
  strict mode: \<open>05!\<close> does not evaluate at all.
\<close>

theorem factorial_of_literal_counterexample:
  "evaluateExpression js_run (js ''25!'') = Inr (Fin 15511210043330986055303168)
   \<and> (15511210043330986055303168 :: rat) \<noteq> of_nat (fact 25)
   \<and> evaluateExpression js_run (js ''05!'') = Inl SyntaxError"
  by (simp add: eval_25 eval_05 fact_numeral)

text \<open>
  Claim C2, amended. For every natural number \<open>n\<close>, written as its decimal literal and
  followed by \<open>!\<close>, the evaluation returns, on every host, 1 when \<open>n\<close> is 0 or 1, Infinity
  when \<open>n > 170\<close>, and otherwise the product of \<open>2, 3, \<dots>, n\<close> multiplied one after the
  other in double arithmetic, each multiplication rounded to the nearest double. This
  product is \<open>n!\<close> itself up to \<open>n = 22\<close>, and a rounded value afterwards: \<open>25!\<close> evaluates
  to 15511210043330986055303168. In particular \<open>5!\<close> evaluates to 120 and \<open>171!\<close> to
  Infinity, which is not finite. A run of two or more digits that starts with \<open>0\<close>,
  followed by \<open>!\<close>, is a syntax error of strict mode, and a commit of it shows \<open>Error\<close>.
\<close>

theorem factorial_of_literal:
  "evaluateExpression (js_host rest) (digitsOf n @ js ''!'')
     = Inr (if n \<le> 1 then Fin 1 else if 170 < n then PosInf
            else foldl (\<lambda>r i. js_mul r (Fin (of_int i))) (Fin 1) [2..int n])
   \<and> (n \<le> 22 \<longrightarrow>
        evaluateExpression (js_host rest) (digitsOf n @ js ''!'') = Inr (Fin (of_nat (fact n))))
   \<and> evaluateExpression (js_host rest) (js ''25!'') = Inr (Fin 15511210043330986055303168)
   \<and> evaluateExpression (js_host rest) (js ''5!'') = Inr (Fin 120)
   \<and> evaluateExpression (js_host rest) (js ''171!'') = Inr PosInf
   \<and> \<not> isFinite PosInf
   \<and> ((\<forall>c\<in>set ds. isDigit c) \<and> 2 \<le> length ds \<and> hd ds = of_char CHR ''0'' \<longrightarrow>
        evaluateExpression (js_host rest) (ds @ js ''!'') = Inl SyntaxError
        \<and> resultEl (calculate (js_host rest) now (s\<lparr>expression := ds @ js ''!''\<rparr>))
            = js ''Error'')"
proof -
  have ev: "evaluateExpression (js_host rest) (digitsOf m @ js ''!'')
     = Inr (if m \<le> 1 then Fin 1 else if 170 < m then PosInf
            else fact_loop 2 (int m) (Fin 1))" for m
    by (rule evaluateExpression_host [OF evaluate_literal_factorial]) simp
  have a: "evaluateExpression (js_host rest) (digitsOf n @ js ''!'')
     = Inr (if n \<le> 1 then Fin 1 else if 170 < n then PosInf
            else foldl (\<lambda>r i. js_mul r (Fin (of_int i))) (Fin 1) [2..int n])"
    by (simp add: ev fact_loop_upto)
  have b: "evaluateExpression (js_host rest) (digitsOf n @ js ''!'') = Inr (Fin (of_nat (fact n)))"
    if small: "n \<le> 22"
  proof (cases "n \<le> 1")
    case True
    then have "n = 0 \<or> n = 1" by auto
    then show ?thesis by (auto simp: ev)
  next
    case False
    then have "fact_loop 2 (int n) (Fin 1) = Fin (of_nat (fact n))"
      using small by (intro fact_loop_exact) simp_all
    with False small show ?thesis by (simp add: ev)
  qed
  have c: "evaluateExpression (js_host rest) (js ''25!'') = Inr (Fin 15511210043330986055303168)"
    by (rule evaluateExpression_host [OF eval_25]) simp
  have d5: "digitsOf 5 = js ''5''"
    by (simp add: digitsOf.simps digitChar_def js_def)
  have d171: "digitsOf 171 = js ''171''"
    by (simp add: digitsOf.simps digitChar_def js_def)
  have "fact_loop 2 (int 5) (Fin 1) = Fin (of_nat (fact 5))"
    by (intro fact_loop_exact) simp_all
  then have d: "evaluateExpression (js_host rest) (js ''5!'') = Inr (Fin 120)"
    using ev [of 5] by (simp add: d5 fact_numeral js_append)
  have e: "evaluateExpression (js_host rest) (js ''171!'') = Inr PosInf"
    using ev [of 171] by (simp add: d171 js_append)
  have f: "evaluateExpression (js_host rest) (ds @ js ''!'') = Inl SyntaxError
        \<and> resultEl (calculate (js_host rest) now (s\<lparr>expression := ds @ js ''!''\<rparr>))
            = js ''Error''"
    if lz: "(\<forall>c\<in>set ds. isDigit c) \<and> 2 \<le> length ds \<and> hd ds = of_char CHR ''0''"
  proof -
    have "evaluateExpression js_run (ds @ js ''!'') = Inl SyntaxError"
      using lz by (intro evaluateExpression_leading_zero) simp_all
    then have h: "evaluateExpression (js_host rest) (ds @ js ''!'') = Inl SyntaxError"
      by (rule evaluateExpression_host) simp
    then have "resultEl (calculate (js_host rest) now (s\<lparr>expression := ds @ js ''!''\<rparr>))
                 = js ''Error''"
      by (intro calculate_error(1) [where e = SyntaxError]) (simp_all add: js_def)
    with h show ?thesis by simp
  qed
  from a b c d e f show ?thesis by (simp add: isFinite_def isInf_def)
qed

theorem factorial_of_literal_witness:
  "(6 :: nat) \<le> 22 \<and> evaluateExpression (js_host js_run) (js ''6!'') = Inr (Fin 720)
   \<and> 2 \<le> length (js ''05'') \<and> hd (js ''05'') = of_char CHR ''0''
   \<and> evaluateExpression (js_host js_run) (js ''05!'') = Inl SyntaxError
   \<and> resultEl (calculate (js_host js_run) [] (initial\<lparr>expression := js ''05!''\<rparr>)) = js ''Error''"
proof -
  have d: "digitsOf 6 = js ''6''"
    by (simp add: digitsOf.simps digitChar_def js_def)
  have p: "(\<forall>c\<in>set (js ''05''). isDigit c) \<and> 2 \<le> length (js ''05'')
             \<and> hd (js ''05'') = of_char CHR ''0''"
    by (simp add: js_def isDigit_def)
  note t = factorial_of_literal [of js_run 6 "js ''05''" "[]" initial]
  have "(6 :: nat) \<le> 22 \<longrightarrow>
          evaluateExpression (js_host js_run) (digitsOf 6 @ js ''!'') = Inr (Fin (of_nat (fact 6)))"
    using t by blast
  then have a: "evaluateExpression (js_host js_run) (js ''6!'') = Inr (Fin 720)"
    by (simp add: d fact_numeral js_append)
  have "evaluateExpression (js_host js_run) (js ''05'' @ js ''!'') = Inl SyntaxError
        \<and> resultEl (calculate (js_host js_run) [] (initial\<lparr>expression := js ''05'' @ js ''!''\<rparr>))
            = js ''Error''"
    using t p by blast
  then have b: "evaluateExpression (js_host js_run) (js ''05!'') = Inl SyntaxError
        \<and> resultEl (calculate (js_host js_run) [] (initial\<lparr>expression := js ''05!''\<rparr>))
            = js ''Error''"
    by (simp add: js_append)
  from a b p show ?thesis by simp
qed


section \<open>The factorial after a unary minus\<close>

lemma transform_minus_one_factorial: "transform (js ''-1!'') = js ''-factorial(1)''"
  by code_simp

lemma eval_minus_one_factorial: "evaluateExpression js_run (js ''-1!'') = Inr (Fin (- 1))"
  by code_simp

lemma eval_zero_by_zero: "evaluateExpression js_run (js ''0/0'') = Inr NaN"
  by code_simp

lemma formatResult_minus_one: "formatResult (Fin (- 1)) = js ''-1''"
  by code_simp

lemma calculate_number:
  assumes "expression s \<noteq> []" "evaluateExpression run (expression s) = Inr v"
    "\<not> isNaN v" "isFinite v"
  shows "resultEl (calculate run now s) = formatResult v"
    "lastAnswer (calculate run now s) = Some v"
    "expression (calculate run now s) = []"
    "resultError (calculate run now s) = False"
  using assms by (simp_all add: calculate_def)

lemma calculate_NaN:
  assumes "expression s \<noteq> []" "evaluateExpression run (expression s) = Inr NaN"
  shows "resultEl (calculate run now s) = js ''Error''"
    "resultError (calculate run now s)"
    "lastAnswer (calculate run now s) = None"
    "expression (calculate run now s) = []"
  using assms by (simp_all add: calculate_def showError_def isNaN_def)

text \<open>
  Claim C1, as stated, fails: the pattern \<open>(\d+)!\<close> takes the digits only, so \<open>-1!\<close> becomes
  \<open>-factorial(1)\<close>, which is \<open>-1\<close>; the commit shows \<open>-1\<close> and no error.
\<close>

theorem minus_one_factorial_counterexample:
  "evaluateExpression js_run (js ''-1!'') = Inr (Fin (- 1))
   \<and> evaluateExpression js_run (js ''-1!'') \<noteq> Inr NaN
   \<and> resultEl (calculate js_run [] (initial\<lparr>expression := js ''-1!''\<rparr>)) = js ''-1''
   \<and> resultEl (calculate js_run [] (initial\<lparr>expression := js ''-1!''\<rparr>)) \<noteq> js ''Error''
   \<and> \<not> resultError (calculate js_run [] (initial\<lparr>expression := js ''-1!''\<rparr>))"
proof -
  have e: "expression (initial\<lparr>expression := js ''-1!''\<rparr>) \<noteq> []"
    by (simp add: js_def)
  have v: "evaluateExpression js_run (expression (initial\<lparr>expression := js ''-1!''\<rparr>))
             = Inr (Fin (- 1))"
    by (simp add: eval_minus_one_factorial)
  have n: "\<not> isNaN (Fin (- 1))" "isFinite (Fin (- 1))"
    by (simp_all add: isNaN_def isFinite_def isInf_def)
  have "js ''-1'' \<noteq> js ''Error''" by (simp add: js_def)
  with calculate_number [OF e v n, of "[]"] show ?thesis
    by (simp add: eval_minus_one_factorial formatResult_minus_one)
qed

text \<open>
  Claim C1, amended. The rewriting of \<open>-1!\<close> takes the digit run alone and gives
  \<open>-factorial(1)\<close>: the factorial is applied to 1 and the unary minus to its result. On
  every host the value is \<open>-1\<close>; a commit shows \<open>-1\<close>, raises no error and keeps \<open>-1\<close> as
  the last answer. \<open>factorialFn\<close> itself returns NaN for every negative integer, and a
  commit of an expression that evaluates to NaN shows \<open>Error\<close>.
\<close>

theorem minus_one_factorial:
  "transform (js ''-1!'') = js ''-factorial(1)''
   \<and> evaluateExpression (js_host rest) (js ''-1!'') = Inr (Fin (- 1))
   \<and> resultEl (calculate (js_host rest) now (s\<lparr>expression := js ''-1!''\<rparr>)) = js ''-1''
   \<and> \<not> resultError (calculate (js_host rest) now (s\<lparr>expression := js ''-1!''\<rparr>))
   \<and> lastAnswer (calculate (js_host rest) now (s\<lparr>expression := js ''-1!''\<rparr>))
        = Some (Fin (- 1))
   \<and> (k < 0 \<longrightarrow> factorialFn (Fin (of_int k)) = NaN)
   \<and> (expression s \<noteq> [] \<and> evaluateExpression run (expression s) = Inr NaN \<longrightarrow>
        resultEl (calculate run now s) = js ''Error'' \<and> resultError (calculate run now s))"
proof -
  have e: "expression (s\<lparr>expression := js ''-1!''\<rparr>) \<noteq> []"
    by (simp add: js_def)
  have h: "evaluateExpression (js_host rest) (js ''-1!'') = Inr (Fin (- 1))"
    by (rule evaluateExpression_host [OF eval_minus_one_factorial]) simp
  then have v: "evaluateExpression (js_host rest) (expression (s\<lparr>expression := js ''-1!''\<rparr>))
             = Inr (Fin (- 1))"
    by simp
  have n: "\<not> isNaN (Fin (- 1))" "isFinite (Fin (- 1))"
    by (simp_all add: isNaN_def isFinite_def isInf_def)
  from calculate_number [OF e v n, of now] calculate_NaN [of s run now]
  show ?thesis
    by (simp add: h formatResult_minus_one factorialFn_int transform_minus_one_factorial)
qed

theorem minus_one_factorial_witness:
  "(- 1 :: int) < 0 \<and> factorialFn (Fin (of_int (- 1))) = NaN
   \<and> expression (initial\<lparr>expression := js ''0/0''\<rparr>) \<noteq> []
   \<and> evaluateExpression (js_host js_run) (expression (initial\<lparr>expression := js ''0/0''\<rparr>))
        = Inr NaN
   \<and> resultEl (calculate (js_host js_run) [] (initial\<lparr>expression := js ''0/0''\<rparr>))
        = js ''Error''"
proof -
  have e: "expression (initial\<lparr>expression := js ''0/0''\<rparr>) \<noteq> []"
    by (simp add: js_def)
  have "evaluateExpression (js_host js_run) (js ''0/0'') = Inr NaN"
    by (rule evaluateExpression_host [OF eval_zero_by_zero]) simp
  then have v: "evaluateExpression (js_host js_run)
                  (expression (initial\<lparr>expression := js ''0/0''\<rparr>)) = Inr NaN"
    by simp
  have k: "(- 1 :: int) < 0" by simp
  from minus_one_factorial
         [of js_run "[]" "initial\<lparr>expression := js ''0/0''\<rparr>" "- 1" "js_host js_run"] e v k
  show ?thesis by blast
qed

section \<open>The format of an integer result\<close>

lemma group3_set: "set (group3 ds) \<subseteq> insert 0x2C (set ds)"
proof (induction ds rule: group3.induct)
  case (1 ds)
  show ?case
  proof (cases "length ds \<le> 3")
    case True
    then show ?thesis by (subst group3.simps) auto
  next
    case False
    have "set (take (length ds - 3) ds) \<subseteq> set ds" by (rule set_take_subset)
    moreover have "set (drop (length ds - 3) ds) \<subseteq> set ds" by (rule set_drop_subset)
    ultimately show ?thesis
      using 1 [OF False] False by (subst group3.simps) (auto simp: js_def)
  qed
qed

lemma group3_filter: "filter (\<lambda>c. c \<noteq> 0x2C) (group3 ds) = filter (\<lambda>c. c \<noteq> 0x2C) ds"
proof (induction ds rule: group3.induct)
  case (1 ds)
  show ?case
  proof (cases "length ds \<le> 3")
    case True
    then show ?thesis by (subst group3.simps) simp
  next
    case False
    have "filter (\<lambda>c. c \<noteq> 0x2C) (take (length ds - 3) ds) @ filter (\<lambda>c. c \<noteq> 0x2C) (drop (length ds - 3) ds)
            = filter (\<lambda>c. c \<noteq> 0x2C) ds"
      by (simp only: filter_append [symmetric] append_take_drop_id)
    then show ?thesis
      using 1 [OF False] False by (subst group3.simps) (simp add: js_def)
  qed
qed

lemma floor_of_nat_half [simp]: "\<lfloor>(of_nat m :: rat) + 1 / 2\<rfloor> = int m"
proof -
  have "\<lfloor>(1 / 2 :: rat) + of_int (int m)\<rfloor> = \<lfloor>1 / 2 :: rat\<rfloor> + int m"
    by (rule floor_add_int [symmetric])
  then show ?thesis by (simp add: add.commute)
qed

lemma digitsOf_0: "digitsOf 0 = [0x30]"
  by (simp add: digitsOf.simps digitChar_def)

lemma formatAbs_integer: "formatAbs 0 3 (of_nat m) = group3 (digitsOf m)"
proof -
  have "(of_nat m :: rat) * 10 ^ 3 = of_nat (m * 1000)" by simp
  then have "nat \<lfloor>(of_nat m :: rat) * 10 ^ 3 + 1 / 2\<rfloor> = m * 1000"
    by (simp only: floor_of_nat_half nat_int)
  then show ?thesis
    by (simp add: formatAbs_def Let_def digitsOf_0 padLeft_def dropTrailingZeros_def digitChar_def)
qed


lemma decimalOf_of_nat:
  assumes "m < 2 ^ 53"
  shows "decimalOf (of_nat m) = of_nat m"
proof -
  have "(of_nat m :: rat) < of_nat (2 ^ 53)"
    using assms by (simp only: of_nat_less_iff)
  then show ?thesis by (simp add: decimalOf_def)
qed

lemma toLocaleString_integer:
  assumes "\<bar>n\<bar> < 2 ^ 53"
  shows "toLocaleString 0 3 (Fin (of_int n))
     = (if n < 0 then js ''-'' else []) @ group3 (digitsOf (nat \<bar>n\<bar>))"
proof -
  have a: "\<bar>of_int n :: rat\<bar> = of_nat (nat \<bar>n\<bar>)" by simp
  have "nat \<bar>n\<bar> < 2 ^ 53" using assms by simp
  then have "decimalOf (of_nat (nat \<bar>n\<bar>)) = of_nat (nat \<bar>n\<bar>)"
    by (rule decimalOf_of_nat)
  then show ?thesis
    by (simp only: toLocaleString_def jsnum.case a formatAbs_integer) simp
qed

lemma formatResult_integer:
  assumes "\<bar>n\<bar> < 10 ^ 15"
  shows "formatResult (Fin (of_int n))
     = (if n < 0 then js ''-'' else []) @ group3 (digitsOf (nat \<bar>n\<bar>))"
proof -
  have "(of_int \<bar>n\<bar> :: rat) < of_int (10 ^ 15)"
    using assms by (simp only: of_int_less_iff)
  then have "\<bar>of_int n :: rat\<bar> < 10 ^ 15" by simp
  then have "Number_isInteger (Fin (of_int n)) \<and> js_lt (Math_abs (Fin (of_int n))) (Fin (10 ^ 15))"
    by (simp add: Number_isInteger_def Math_abs_def js_arith)
  moreover have "\<bar>n\<bar> < 2 ^ 53" using assms by simp
  ultimately show ?thesis
    by (simp only: formatResult_def simp_thms if_True toLocaleString_integer)
qed

lemma digits_no_point: "0x2E \<notin> set (digitsOf m)" "0x2C \<notin> set (digitsOf m)"
  using digitsOf_digits [of "0x2E" m] digitsOf_digits [of "0x2C" m] by (auto simp: isDigit_def)

lemma formatResult_NegZero: "formatResult NegZero = js ''-0''"
  by (simp add: formatResult_def Number_isInteger_def Math_abs_def js_arith toLocaleString_def
      formatAbs_integer [of 0, simplified] digitsOf_0 group3.simps js_def)

lemma numericLiteral_2:
  "numericLiteral [0x32, 0x29] = Inr (Fin 2)"
  "afterLiteral [0x32, 0x29] = [0x29]"
  "numericLiteral [0x32, 0x2B, 0x32, 0x29] = Inr (Fin 2)"
  "afterLiteral [0x32, 0x2B, 0x32, 0x29] = [0x2B, 0x32, 0x29]"
  by (simp_all add: numericLiteral_def afterLiteral_def isDigit_def natOfDigits_def digitVal_def
      isWord_def isLetter_def)

lemma tokenize_2_plus_2:
  "tokenize [0x28, 0x32, 0x2B, 0x32, 0x29]
     = Inr [TLParen, TNum (Fin 2), TPlus, TNum (Fin 2), TRParen]"
proof -
  have t0: "tokenize [] = Inr []"
    by (subst tokenize.simps) simp
  have t1: "tokenize [0x29] = Inr [TRParen]"
    by (subst tokenize.simps) (simp add: isDigit_def isLetter_def t0 consTok_def)
  have t2: "tokenize [0x32, 0x29] = Inr [TNum (Fin 2), TRParen]"
    by (subst tokenize.simps) (simp add: isDigit_def numericLiteral_2 t1 consTok_def)
  have t3: "tokenize [0x2B, 0x32, 0x29] = Inr [TPlus, TNum (Fin 2), TRParen]"
    by (subst tokenize.simps) (simp add: isDigit_def isLetter_def nextIs_def t2 consTok_def)
  have t4: "tokenize [0x32, 0x2B, 0x32, 0x29] = Inr [TNum (Fin 2), TPlus, TNum (Fin 2), TRParen]"
    by (subst tokenize.simps) (simp add: isDigit_def numericLiteral_2 t3 consTok_def)
  show ?thesis
    by (subst tokenize.simps) (simp add: isDigit_def isLetter_def t4 consTok_def)
qed

lemma parse_sum:
  "parseExpr 18 [TLParen, TNum a, TPlus, TNum b, TRParen] = Inr (Add (Lit a) (Lit b), [])"
  by (simp add: eval_nat_numeral prec_def binary_def)

lemma eval_two_plus_two: "evaluateExpression js_run (js ''2+2'') = Inr (Fin 4)"
proof -
  have t: "transform (js ''2+2'') = js ''2+2''"
    by code_simp
  have c: "closeParens (js ''2+2'') = js ''2+2''"
    by code_simp
  have s: "list_all allowedChar (replaceAll (js ''factorial'') [] (removeMath (js ''2+2'')))"
    by code_simp
  have d: "0x28 # drop (length bodyPrefix) (bodyPrefix @ js ''2+2'' @ js '')'')
             = [0x28, 0x32, 0x2B, 0x32, 0x29]"
    by (simp add: js_def)
  have "js_run f (bodyPrefix @ js ''2+2'' @ js '')'') = Inr (Fin 4)" for f
    unfolding js_run_def
    by (simp add: d tokenize_2_plus_2 parse_sum bind2_def js_arith del: append.simps drop_append)
  then show ?thesis
    by (simp add: evaluateExpression_def t c s)
qed

text \<open>
  Claim C8. For every integer \<open>n\<close> of magnitude below \<open>10^15\<close>, \<open>formatResult\<close> gives the
  decimal digits of \<open>n\<close> grouped by thousands with commas, after a minus sign when \<open>n\<close> is
  negative: there is no decimal point in it, and without the commas it is the plain
  numeral. The negative zero gives \<open>-0\<close>. On every host \<open>2+2\<close> evaluates to 4 exactly, and
  \<open>formatResult\<close> of 4 is \<open>4\<close>.
\<close>

theorem integer_result_format:
  "(\<bar>n\<bar> < 10 ^ 15 \<longrightarrow>
      formatResult (Fin (of_int n))
        = (if n < 0 then js ''-'' else []) @ group3 (digitsOf (nat \<bar>n\<bar>))
      \<and> of_char CHR ''.'' \<notin> set (formatResult (Fin (of_int n)))
      \<and> filter (\<lambda>c. c \<noteq> of_char CHR '','') (formatResult (Fin (of_int n)))
           = (if n < 0 then js ''-'' else []) @ digitsOf (nat \<bar>n\<bar>))
   \<and> formatResult NegZero = js ''-0''
   \<and> formatResult (Fin 1234567) = js ''1,234,567''
   \<and> formatResult (Fin (- 1000)) = js ''-1,000''
   \<and> formatResult (Fin 999999999999999) = js ''999,999,999,999,999''
   \<and> evaluateExpression (js_host rest) (js ''2+2'') = Inr (Fin 4)
   \<and> formatResult (Fin 4) = js ''4''"
proof -
  have gen: "formatResult (Fin (of_int n))
        = (if n < 0 then js ''-'' else []) @ group3 (digitsOf (nat \<bar>n\<bar>))
      \<and> of_char CHR ''.'' \<notin> set (formatResult (Fin (of_int n)))
      \<and> filter (\<lambda>c. c \<noteq> of_char CHR '','') (formatResult (Fin (of_int n)))
           = (if n < 0 then js ''-'' else []) @ digitsOf (nat \<bar>n\<bar>)"
    if small: "\<bar>n\<bar> < 10 ^ 15"
  proof -
    have f: "formatResult (Fin (of_int n))
           = (if n < 0 then js ''-'' else []) @ group3 (digitsOf (nat \<bar>n\<bar>))"
      using small by (rule formatResult_integer)
    have p: "of_char CHR ''.'' \<notin> set (formatResult (Fin (of_int n)))"
      using group3_set [of "digitsOf (nat \<bar>n\<bar>)"] digits_no_point [of "nat \<bar>n\<bar>"]
      by (auto simp: f js_def)
    have "filter (\<lambda>c. c \<noteq> 0x2C) (digitsOf (nat \<bar>n\<bar>)) = digitsOf (nat \<bar>n\<bar>)"
      using digits_no_point [of "nat \<bar>n\<bar>"] by (auto simp: filter_id_conv)
    then have "filter (\<lambda>c. c \<noteq> of_char CHR '','') (formatResult (Fin (of_int n)))
           = (if n < 0 then js ''-'' else []) @ digitsOf (nat \<bar>n\<bar>)"
      by (simp add: f group3_filter js_def)
    with f p show ?thesis by simp
  qed
  have e1: "formatResult (Fin 1234567) = js ''1,234,567''"
    using formatResult_integer [of 1234567]
    by (simp add: digitsOf.simps digitChar_def group3.simps js_def)
  have e2: "formatResult (Fin (- 1000)) = js ''-1,000''"
    using formatResult_integer [of "- 1000"]
    by (simp add: digitsOf.simps digitChar_def group3.simps js_def)
  have e3: "formatResult (Fin 999999999999999) = js ''999,999,999,999,999''"
    using formatResult_integer [of 999999999999999]
    by (simp add: digitsOf.simps digitChar_def group3.simps js_def)
  have e4: "formatResult (Fin 4) = js ''4''"
    using formatResult_integer [of 4]
    by (simp add: digitsOf.simps digitChar_def group3.simps js_def)
  have ev: "evaluateExpression (js_host rest) (js ''2+2'') = Inr (Fin 4)"
    by (rule evaluateExpression_host [OF eval_two_plus_two]) simp
  from gen e1 e2 e3 e4 ev formatResult_NegZero show ?thesis by blast
qed

theorem integer_result_format_witness:
  "\<bar>- 987654321 :: int\<bar> < 10 ^ 15 \<and> formatResult (Fin (- 987654321)) = js ''-987,654,321''
   \<and> of_char CHR ''.'' \<notin> set (formatResult (Fin (- 987654321)))"
proof -
  have b: "\<bar>- 987654321 :: int\<bar> < 10 ^ 15" by simp
  have "\<bar>- 987654321 :: int\<bar> < 10 ^ 15 \<longrightarrow>
      formatResult (Fin (of_int (- 987654321)))
        = (if (- 987654321 :: int) < 0 then js ''-'' else [])
          @ group3 (digitsOf (nat \<bar>- 987654321\<bar>))
      \<and> of_char CHR ''.'' \<notin> set (formatResult (Fin (of_int (- 987654321))))"
    using integer_result_format [of "- 987654321" js_run] by blast
  with b have "formatResult (Fin (of_int (- 987654321)))
        = (if (- 987654321 :: int) < 0 then js ''-'' else [])
          @ group3 (digitsOf (nat \<bar>- 987654321\<bar>))
      \<and> of_char CHR ''.'' \<notin> set (formatResult (Fin (of_int (- 987654321))))"
    by blast
  then have "formatResult (Fin (- 987654321)) = js ''-987,654,321''
      \<and> of_char CHR ''.'' \<notin> set (formatResult (Fin (- 987654321)))"
    by (simp add: digitsOf.simps digitChar_def group3.simps js_def)
  with b show ?thesis by blast
qed

section \<open>The currency conversion\<close>














end
